theory Spec2Isabelle
  imports Main "HOL-Library.Word" "HOL-Library.Sublist"
begin

unbundle bit_operations_syntax

section \<open>Resource keys: \<open>HashString\<close>\<close>

text \<open>
  \<^verbatim>\<open>HashString\<close> (main.go, lines 32--36) feeds the bytes of its argument to
  \<^verbatim>\<open>crypto/md5\<close> and prints the 16-byte digest with \<^verbatim>\<open>%x\<close>. A Go string is a
  sequence of bytes, which is what \<^typ>\<open>string\<close> is here. MD5 itself (RFC 1321) is
  written out on 32-bit words, so that the key is a function that computes.
\<close>

definition md5_K :: "32 word list" where
  "md5_K = [
    0xd76aa478, 0xe8c7b756, 0x242070db, 0xc1bdceee, 0xf57c0faf, 0x4787c62a, 0xa8304613, 0xfd469501,
    0x698098d8, 0x8b44f7af, 0xffff5bb1, 0x895cd7be, 0x6b901122, 0xfd987193, 0xa679438e, 0x49b40821,
    0xf61e2562, 0xc040b340, 0x265e5a51, 0xe9b6c7aa, 0xd62f105d, 0x02441453, 0xd8a1e681, 0xe7d3fbc8,
    0x21e1cde6, 0xc33707d6, 0xf4d50d87, 0x455a14ed, 0xa9e3e905, 0xfcefa3f8, 0x676f02d9, 0x8d2a4c8a,
    0xfffa3942, 0x8771f681, 0x6d9d6122, 0xfde5380c, 0xa4beea44, 0x4bdecfa9, 0xf6bb4b60, 0xbebfbc70,
    0x289b7ec6, 0xeaa127fa, 0xd4ef3085, 0x04881d05, 0xd9d4d039, 0xe6db99e5, 0x1fa27cf8, 0xc4ac5665,
    0xf4292244, 0x432aff97, 0xab9423a7, 0xfc93a039, 0x655b59c3, 0x8f0ccc92, 0xffeff47d, 0x85845dd1,
    0x6fa87e4f, 0xfe2ce6e0, 0xa3014314, 0x4e0811a1, 0xf7537e82, 0xbd3af235, 0x2ad7d2bb, 0xeb86d391]"

definition md5_S :: "nat list" where
  "md5_S = [
    7, 12, 17, 22, 7, 12, 17, 22, 7, 12, 17, 22, 7, 12, 17, 22,
    5, 9, 14, 20, 5, 9, 14, 20, 5, 9, 14, 20, 5, 9, 14, 20,
    4, 11, 16, 23, 4, 11, 16, 23, 4, 11, 16, 23, 4, 11, 16, 23,
    6, 10, 15, 21, 6, 10, 15, 21, 6, 10, 15, 21, 6, 10, 15, 21]"

type_synonym md5_state = "32 word \<times> 32 word \<times> 32 word \<times> 32 word"

definition le32 :: "8 word list \<Rightarrow> 32 word" where
  "le32 bs = foldr (\<lambda>b w. push_bit 8 w OR ucast b) (take 4 bs) 0"

definition bytes_le :: "nat \<Rightarrow> 'a::len word \<Rightarrow> 8 word list" where
  "bytes_le k w = map (\<lambda>i. ucast (drop_bit (8 * i) w)) [0..<k]"

definition md5_pad :: "8 word list \<Rightarrow> 8 word list" where
  "md5_pad bs = bs @ [0x80] @ replicate ((119 - length bs mod 64) mod 64) 0
                 @ bytes_le 8 (of_nat (8 * length bs) :: 64 word)"

definition md5_words :: "8 word list \<Rightarrow> 32 word list" where
  "md5_words blk = map (\<lambda>j. le32 (drop (4 * j) blk)) [0..<16]"

definition md5_step :: "32 word list \<Rightarrow> md5_state \<Rightarrow> nat \<Rightarrow> md5_state" where
  "md5_step m st i = (case st of (a, b, c, d) \<Rightarrow>
     let f = (if i < 16 then (b AND c) OR (NOT b AND d)
              else if i < 32 then (d AND b) OR (NOT d AND c)
              else if i < 48 then b XOR c XOR d
              else c XOR (b OR NOT d));
         g = (if i < 16 then i
              else if i < 32 then (5 * i + 1) mod 16
              else if i < 48 then (3 * i + 5) mod 16
              else (7 * i) mod 16);
         f' = f + a + md5_K ! i + m ! g
     in (d, b + word_rotl (md5_S ! i) f', b, c))"

definition md5_block :: "md5_state \<Rightarrow> 8 word list \<Rightarrow> md5_state" where
  "md5_block st blk = (case st of (a0, b0, c0, d0) \<Rightarrow>
     case foldl (md5_step (md5_words blk)) st [0..<64] of (a, b, c, d) \<Rightarrow>
       (a0 + a, b0 + b, c0 + c, d0 + d))"

definition md5_blocks :: "8 word list \<Rightarrow> 8 word list list" where
  "md5_blocks bs = map (\<lambda>k. take 64 (drop (64 * k) bs)) [0..<length bs div 64]"

definition md5_Sum :: "8 word list \<Rightarrow> 8 word list" where
  "md5_Sum bs = (case foldl md5_block (0x67452301, 0xefcdab89, 0x98badcfe, 0x10325476)
                        (md5_blocks (md5_pad bs)) of
     (a, b, c, d) \<Rightarrow> concat (map (bytes_le 4) [a, b, c, d]))"

definition hex_digit :: "nat \<Rightarrow> char" where
  "hex_digit n = ''0123456789abcdef'' ! (n mod 16)"

definition hex_byte :: "8 word \<Rightarrow> string" where
  "hex_byte b = [hex_digit (unat b div 16), hex_digit (unat b mod 16)]"

definition HashString :: "string \<Rightarrow> string" where
  "HashString s = concat (map hex_byte (md5_Sum (map of_char s)))"


section \<open>Paths\<close>

text \<open>
  \<^verbatim>\<open>filepath.Join\<close> drops empty elements and joins the rest with the separator; it also
  cleans the result, which changes nothing for a cache directory that is already clean
  and elements that are hexadecimal strings or fixed file names, the only uses in
  main.go.
\<close>

fun join_sep :: "string list \<Rightarrow> string" where
  "join_sep [] = []"
| "join_sep [e] = e"
| "join_sep (e # es) = e @ ''/'' @ join_sep es"

definition filepath_Join :: "string list \<Rightarrow> string" where
  "filepath_Join elems = join_sep (filter (\<lambda>e. e \<noteq> []) elems)"

section \<open>Errors, files and the environment\<close>

text \<open>
  A Go \<^verbatim>\<open>error\<close> is its message; a result of type \<open>error option\<close> is \<^verbatim>\<open>nil\<close> when it
  is \<open>None\<close>.
\<close>

type_synonym error = string

subsection \<open>JSON documents\<close>

text \<open>
  \<^verbatim>\<open>encoding/json\<close> is modelled at the level of documents: \<^verbatim>\<open>json.Marshal\<close> maps Go
  values to a document and \<^verbatim>\<open>json.Unmarshal\<close> maps a document to a struct. The bytes
  of a document are not modelled; numbers are integers, the only numbers main.go writes.
\<close>

datatype json =
    JNull
  | JBool bool
  | JNumber int
  | JString string
  | JArray "json list"
  | JObject "(string \<times> json) list"

text \<open>
  The size of the UTF-8 encoding that starts a byte string, as \<^verbatim>\<open>utf8.DecodeRuneInString\<close>
  finds it: \<open>None\<close> is \<^verbatim>\<open>(RuneError, 1)\<close>, an invalid or truncated encoding.
\<close>

definition in_range :: "nat \<Rightarrow> nat \<Rightarrow> char list \<Rightarrow> nat \<Rightarrow> bool" where
  "in_range lo hi s i = (i < length s \<and> lo \<le> of_char (s ! i) \<and> of_char (s ! i) \<le> hi)"

definition DecodeRuneSize :: "string \<Rightarrow> nat option" where
  "DecodeRuneSize s =
     (case s of [] \<Rightarrow> None
      | c # cs \<Rightarrow>
         let b0 = (of_char c :: nat) in
         if b0 < 0x80 then Some 1
         else if 0xC2 \<le> b0 \<and> b0 \<le> 0xDF then
           (if in_range 0x80 0xBF cs 0 then Some 2 else None)
         else if 0xE0 \<le> b0 \<and> b0 \<le> 0xEF then
           (if in_range (if b0 = 0xE0 then 0xA0 else 0x80) (if b0 = 0xED then 0x9F else 0xBF) cs 0
               \<and> in_range 0x80 0xBF cs 1 then Some 3 else None)
         else if 0xF0 \<le> b0 \<and> b0 \<le> 0xF4 then
           (if in_range (if b0 = 0xF0 then 0x90 else 0x80) (if b0 = 0xF4 then 0x8F else 0xBF) cs 0
               \<and> in_range 0x80 0xBF cs 1 \<and> in_range 0x80 0xBF cs 2 then Some 4 else None)
         else None)"

text \<open>\<^verbatim>\<open>utf8.ValidString\<close>: every byte belongs to a valid encoding.\<close>

fun ValidString :: "string \<Rightarrow> bool" where
  "ValidString [] = True"
| "ValidString (c # cs) =
     (case DecodeRuneSize (c # cs) of
        None \<Rightarrow> False
      | Some n \<Rightarrow> ValidString (drop (n - 1) cs))"

text \<open>
  A Go string in a document: the encoder replaces every byte that starts no valid
  encoding by U+FFFD (bytes EF BF BD) and keeps valid encodings as they are
  (``String values encode as JSON strings coerced to valid UTF-8'').
\<close>

fun coerce_utf8 :: "string \<Rightarrow> string" where
  "coerce_utf8 [] = []"
| "coerce_utf8 (c # cs) =
     (case DecodeRuneSize (c # cs) of
        None \<Rightarrow> [CHR 0xEF, CHR 0xBF, CHR 0xBD] @ coerce_utf8 cs
      | Some n \<Rightarrow> c # take (n - 1) cs @ coerce_utf8 (drop (n - 1) cs))"

subsection \<open>The metadata record\<close>

text \<open>
  The struct \<^verbatim>\<open>info\<close> of \<^verbatim>\<open>ServeFile\<close> (lines 284--289). \<^verbatim>\<open>int\<close> is taken as 64 bits
  wide, as on the platforms the server is built for; \<^verbatim>\<open>int64\<close> is a 64-bit word read
  as signed.
\<close>

record meta_info =
  Filename :: string
  Size :: "64 word"
  URL :: string
  Time :: "64 word"

definition zero_info :: meta_info where
  "zero_info = \<lparr>Filename = [], Size = 0, URL = [], Time = 0\<rparr>"

text \<open>
  The map literal that \<^verbatim>\<open>download\<close> marshals (lines 221--226). \<^verbatim>\<open>json.Marshal\<close> writes
  the keys of a map in sorted order.
\<close>

definition marshal_meta :: "string \<Rightarrow> 64 word \<Rightarrow> string \<Rightarrow> 64 word \<Rightarrow> json" where
  "marshal_meta filename sz url now =
     JObject [(''filename'', JString (coerce_utf8 filename)),
              (''size'', JNumber (sint sz)),
              (''time'', JNumber (sint now)),
              (''url'', JString (coerce_utf8 url))]"

text \<open>
  \<^verbatim>\<open>json.Unmarshal\<close> into \<^verbatim>\<open>info\<close>: a key selects the field whose tag it equals, letter
  case ignored; other keys are skipped; \<^verbatim>\<open>null\<close> leaves a field as it is; a value of
  the wrong kind or a number outside the field's range is an error. (Go goes on decoding
  after such an error and returns the first one; \<^verbatim>\<open>ServeFile\<close> only tests for it.)
\<close>

definition lower :: "char \<Rightarrow> char" where
  "lower c = (let b = (of_char c :: nat) in if 0x41 \<le> b \<and> b \<le> 0x5A then char_of (b + 32) else c)"

definition int64_range :: "int \<Rightarrow> bool" where
  "int64_range n = (- (2 ^ 63) \<le> n \<and> n < 2 ^ 63)"

definition set_string :: "json \<Rightarrow> string \<Rightarrow> error + string" where
  "set_string v old =
     (case v of JNull \<Rightarrow> Inr old
      | JString s \<Rightarrow> Inr s
      | _ \<Rightarrow> Inl ''json: cannot unmarshal value into Go struct field of type string'')"

definition set_int64 :: "json \<Rightarrow> 64 word \<Rightarrow> error + 64 word" where
  "set_int64 v old =
     (case v of JNull \<Rightarrow> Inr old
      | JNumber n \<Rightarrow>
          if int64_range n then Inr (word_of_int n)
          else Inl ''json: cannot unmarshal number into Go struct field of type int64''
      | _ \<Rightarrow> Inl ''json: cannot unmarshal value into Go struct field of type int64'')"

definition set_field :: "meta_info \<Rightarrow> string \<times> json \<Rightarrow> error + meta_info" where
  "set_field info kv =
     (let k = map lower (fst kv); v = snd kv in
      if k = ''filename'' then
        (case set_string v (Filename info) of Inl e \<Rightarrow> Inl e | Inr s \<Rightarrow> Inr (info\<lparr>Filename := s\<rparr>))
      else if k = ''size'' then
        (case set_int64 v (Size info) of Inl e \<Rightarrow> Inl e | Inr n \<Rightarrow> Inr (info\<lparr>Size := n\<rparr>))
      else if k = ''url'' then
        (case set_string v (URL info) of Inl e \<Rightarrow> Inl e | Inr s \<Rightarrow> Inr (info\<lparr>URL := s\<rparr>))
      else if k = ''time'' then
        (case set_int64 v (Time info) of Inl e \<Rightarrow> Inl e | Inr n \<Rightarrow> Inr (info\<lparr>Time := n\<rparr>))
      else Inr info)"

fun set_fields :: "meta_info \<Rightarrow> (string \<times> json) list \<Rightarrow> error + meta_info" where
  "set_fields info [] = Inr info"
| "set_fields info (kv # kvs) =
     (case set_field info kv of Inl e \<Rightarrow> Inl e | Inr info' \<Rightarrow> set_fields info' kvs)"

definition unmarshal_info :: "json \<Rightarrow> error + meta_info" where
  "unmarshal_info doc =
     (case doc of
        JObject kvs \<Rightarrow> set_fields zero_info kvs
      | JNull \<Rightarrow> Inr zero_info
      | _ \<Rightarrow> Inl ''json: cannot unmarshal value into Go value of type struct'')"

subsection \<open>The file system\<close>

text \<open>
  What a file holds is either bytes or a JSON document (standing for the bytes of its
  text). The file system maps a path to what is there. A system call fails when the
  environment says so (\<open>faults\<close>). A failed call changes nothing, with one exception:
  \<^verbatim>\<open>ioutil.WriteFile\<close> opens its file, which creates it, then writes and closes it; it
  can fail before the file is there (\<open>WriteFile\<close>) or at the write, which leaves the
  file, empty (\<open>WriteData\<close>).
\<close>

datatype content = Bytes string | Document json

datatype node = File content "64 word" | Directory

type_synonym filesystem = "string \<Rightarrow> node option"

datatype syscall =
    Create string
  | Copy string
  | Close string
  | MkdirAll string
  | Rename string string
  | WriteFile string
  | WriteData string
  | Remove string
  | RemoveAll string

definition below :: "string \<Rightarrow> string \<Rightarrow> bool" where
  "below dir p = (p = dir \<or> prefix (dir @ ''/'') p)"

definition parents :: "string \<Rightarrow> string list" where
  "parents p = map (\<lambda>i. take i p) (filter (\<lambda>i. 0 < i \<and> p ! i = CHR ''/'') [0..<length p])"

definition os_Stat :: "filesystem \<Rightarrow> string \<Rightarrow> bool" where
  "os_Stat fs p = (fs p \<noteq> None)"

definition os_Create :: "filesystem \<Rightarrow> string \<Rightarrow> 64 word \<Rightarrow> filesystem" where
  "os_Create fs p now = fs(p \<mapsto> File (Bytes []) now)"

definition os_MkdirAll :: "filesystem \<Rightarrow> string \<Rightarrow> filesystem" where
  "os_MkdirAll fs p = (\<lambda>q. if (q = p \<or> q \<in> set (parents p)) \<and> fs q = None then Some Directory else fs q)"

definition os_Rename :: "filesystem \<Rightarrow> string \<Rightarrow> string \<Rightarrow> filesystem" where
  "os_Rename fs old new = (fs(new := fs old))(old := None)"

definition ioutil_WriteFile :: "filesystem \<Rightarrow> string \<Rightarrow> content \<Rightarrow> 64 word \<Rightarrow> filesystem" where
  "ioutil_WriteFile fs p data now = fs(p \<mapsto> File data now)"

definition os_Remove :: "filesystem \<Rightarrow> string \<Rightarrow> filesystem" where
  "os_Remove fs p = fs(p := None)"

definition os_RemoveAll :: "filesystem \<Rightarrow> string \<Rightarrow> filesystem" where
  "os_RemoveAll fs dir = (\<lambda>q. if below dir q then None else fs q)"

definition ioutil_ReadFile :: "filesystem \<Rightarrow> string \<Rightarrow> error + content" where
  "ioutil_ReadFile fs p =
     (case fs p of
        None \<Rightarrow> Inl ''no such file or directory''
      | Some Directory \<Rightarrow> Inl ''is a directory''
      | Some (File c t) \<Rightarrow> Inr c)"

text \<open>\<^verbatim>\<open>os.Open\<close>, with what the opened file then yields to its reader.\<close>

definition os_Open :: "filesystem \<Rightarrow> string \<Rightarrow> error + content" where
  "os_Open fs p =
     (case fs p of
        None \<Rightarrow> Inl ''no such file or directory''
      | Some Directory \<Rightarrow> Inl ''is a directory''
      | Some (File c t) \<Rightarrow> Inr c)"

definition os_Chtimes :: "filesystem \<Rightarrow> string \<Rightarrow> 64 word \<Rightarrow> filesystem" where
  "os_Chtimes fs p t = (case fs p of Some (File c _) \<Rightarrow> fs(p \<mapsto> File c t) | _ \<Rightarrow> fs)"

subsection \<open>The origin\<close>

text \<open>
  The request \<^verbatim>\<open>download\<close> builds (lines 146--159) and what \<^verbatim>\<open>req.Do()\<close> gives back:
  an error, or a response whose body is read to its end or to a read error.
  \<open>ContentLength\<close> is what \<^verbatim>\<open>strconv.Atoi\<close> makes of the length header, \<open>None\<close> when
  it fails.
\<close>

record Request =
  Method :: string
  Uri :: string
  MaxRedirects :: nat
  RedirectHeaders :: bool
  Proxy :: string

record Response =
  StatusCode :: int
  Status :: string
  ContentLength :: "int option"
  Body :: string
  BodyError :: "error option"

record env =
  origin :: "Request \<Rightarrow> error + Response"
  faults :: "syscall \<Rightarrow> error option"
  clock :: "64 word"

section \<open>The download cache\<close>

text \<open>
  The struct \<^verbatim>\<open>Status\<close> of the dashboard (lines 38--43) is the record \<open>progress\<close>, its
  first two fields renamed: \<open>Status\<close> and \<open>URL\<close> are fields of a response and of the
  metadata here. \<^verbatim>\<open>download\<close> deletes the entry it sets before it returns, so the bytes
  counted in between are not modelled.

  The struct \<^verbatim>\<open>DownloadCache\<close> (lines 51--59). A channel made by \<^verbatim>\<open>make(chan error, 1)\<close>
  is its index in \<open>chans\<close>, the channels made so far, each with its capacity and the
  values it buffers. The mutex is not a field: the code between \<^verbatim>\<open>Lock\<close> and \<^verbatim>\<open>Unlock\<close>
  is one step of the model. \<^verbatim>\<open>NewDownloadCache\<close> also makes the cache directory if it is
  missing; the file system is not part of the value it returns.
\<close>

record progress =
  StatusURL :: string
  StatusFilename :: string
  Copied :: int
  Total :: int

record chan =
  cap :: nat
  buf :: "error option list"

record DownloadCache =
  CacheDir :: string
  GetProxy :: "string option"
  dashboard :: "string \<Rightarrow> progress option"
  workers :: "string \<Rightarrow> bool"
  waiters :: "string \<Rightarrow> nat list option"
  chans :: "chan list"

definition NewDownloadCache :: "string \<Rightarrow> DownloadCache" where
  "NewDownloadCache cacheDir =
     \<lparr>CacheDir = cacheDir, GetProxy = None, dashboard = Map.empty,
      workers = (\<lambda>_. False), waiters = Map.empty, chans = []\<rparr>"

subsection \<open>Channels\<close>

text \<open>
  \<^verbatim>\<open>ch <- v\<close> returns at once when the buffer has room and blocks otherwise (\<open>None\<close>);
  \<^verbatim>\<open><-ch\<close> takes the oldest buffered value and blocks on an empty buffer (\<open>None\<close>).
\<close>

definition chan_send :: "chan list \<Rightarrow> nat \<Rightarrow> error option \<Rightarrow> chan list option" where
  "chan_send cs c v =
     (if c < length cs \<and> length (buf (cs ! c)) < cap (cs ! c)
      then Some (cs[c := (cs ! c)\<lparr>buf := buf (cs ! c) @ [v]\<rparr>])
      else None)"

definition chan_recv :: "chan list \<Rightarrow> nat \<Rightarrow> (error option \<times> chan list) option" where
  "chan_recv cs c =
     (if c < length cs then
        (case buf (cs ! c) of
           [] \<Rightarrow> None
         | v # vs \<Rightarrow> Some (v, cs[c := (cs ! c)\<lparr>buf := vs\<rparr>]))
      else None)"

subsection \<open>Waiters (lines 129--143)\<close>

definition waiting :: "DownloadCache \<Rightarrow> string \<Rightarrow> nat list" where
  "waiting d hash = (case waiters d hash of None \<Rightarrow> [] | Some cs \<Rightarrow> cs)"

definition unsafeAddWaiter :: "DownloadCache \<Rightarrow> string \<Rightarrow> DownloadCache \<times> nat" where
  "unsafeAddWaiter d hash =
     (let d1 = (if waiters d hash = None then d\<lparr>waiters := (waiters d)(hash \<mapsto> [])\<rparr> else d);
          ch = length (chans d1);
          d2 = d1\<lparr>chans := chans d1 @ [\<lparr>cap = 1, buf = []\<rparr>]\<rparr>
      in (d2\<lparr>waiters := (waiters d2)(hash \<mapsto> waiting d2 hash @ [ch])\<rparr>, ch))"

text \<open>
  The loop of \<^verbatim>\<open>unsafeNotifyWaiters\<close>: one send per waiter, in the order of the slice.
  The result holds the sends made, in order; \<open>None\<close> when a send blocks.
\<close>

fun send_each :: "chan list \<Rightarrow> nat list \<Rightarrow> error option \<Rightarrow> (chan list \<times> (nat \<times> error option) list) option" where
  "send_each cs [] v = Some (cs, [])"
| "send_each cs (ch # rest) v =
     (case chan_send cs ch v of
        None \<Rightarrow> None
      | Some cs' \<Rightarrow>
         (case send_each cs' rest v of
            None \<Rightarrow> None
          | Some (cs'', sends) \<Rightarrow> Some (cs'', (ch, v) # sends)))"

definition unsafeNotifyWaiters ::
  "DownloadCache \<Rightarrow> string \<Rightarrow> error option \<Rightarrow> (DownloadCache \<times> (nat \<times> error option) list) option" where
  "unsafeNotifyWaiters d hash err =
     (case send_each (chans d) (waiting d hash) err of
        None \<Rightarrow> None
      | Some (cs, sends) \<Rightarrow> Some (d\<lparr>chans := cs, waiters := (waiters d)(hash := None)\<rparr>, sends))"

subsection \<open>\<^verbatim>\<open>downloadDir\<close> and \<^verbatim>\<open>IsCached\<close> (lines 231--239)\<close>

definition downloadDir :: "DownloadCache \<Rightarrow> string \<Rightarrow> string" where
  "downloadDir d url =
     (let hash = HashString url in filepath_Join [CacheDir d, take 2 hash, drop 2 hash])"

definition IsCached :: "DownloadCache \<Rightarrow> filesystem \<Rightarrow> string \<Rightarrow> bool" where
  "IsCached d fs url = os_Stat fs (downloadDir d url)"

subsection \<open>\<^verbatim>\<open>download\<close> (lines 145--229)\<close>

text \<open>
  What one call of \<^verbatim>\<open>download\<close> leaves: the error it returns, the cache and the file
  system afterwards, the requests it sent and the calls it made on the file system, in
  order. \<open>at_return\<close> is the file system when the body of the function returned, before
  the deferred calls ran: what another goroutine sees in between.
\<close>

record outcome =
  err :: "error option"
  cache :: DownloadCache
  at_return :: filesystem
  files :: filesystem
  sent :: "Request list"
  calls :: "syscall list"

text \<open>The deferred closure of lines 180--185, run when \<^verbatim>\<open>download\<close> returns an error.\<close>

definition cleanup :: "env \<Rightarrow> filesystem \<Rightarrow> string \<Rightarrow> string \<Rightarrow> filesystem" where
  "cleanup e fs tmpFilename targetDir =
     (let fs1 = (if faults e (Remove tmpFilename) = None then os_Remove fs tmpFilename else fs)
      in if faults e (RemoveAll targetDir) = None then os_RemoveAll fs1 targetDir else fs1)"

text \<open>
  The request of lines 146--159. \<open>GetProxy\<close> is \<open>None\<close> for a nil function and otherwise
  holds the string the function returns on this call.
\<close>

definition request :: "DownloadCache \<Rightarrow> string \<Rightarrow> Request" where
  "request d url =
     (let req = \<lparr>Method = ''GET'', Uri = url, MaxRedirects = 10, RedirectHeaders = True, Proxy = []\<rparr>
      in case GetProxy d of
           None \<Rightarrow> req
         | Some proxy \<Rightarrow> if \<not> prefix ''http://'' proxy then req else req\<lparr>Proxy := proxy\<rparr>)"

definition download :: "env \<Rightarrow> DownloadCache \<Rightarrow> filesystem \<Rightarrow> string \<Rightarrow> string \<Rightarrow> outcome" where
  "download e d fs url filename =
     (let req = request d url;
          hash = HashString url
      in case origin e req of
           Inl x \<Rightarrow> \<lparr>err = Some x, cache = d, at_return = fs, files = fs, sent = [req], calls = []\<rparr>
         | Inr res \<Rightarrow>
            if StatusCode res \<noteq> 200 then
              \<lparr>err = Some (''remote: '' @ Status res), cache = d, at_return = fs, files = fs, sent = [req], calls = []\<rparr>
            else
              let fileLength = (case ContentLength res of None \<Rightarrow> 0 | Some n \<Rightarrow> n);
                  tmpFilename = filepath_Join [CacheDir d, hash @ ''.tmp''];
                  targetDir = downloadDir d url;
                  deferred = [Remove tmpFilename, RemoveAll targetDir]
              in case faults e (Create tmpFilename) of
                   Some x \<Rightarrow>
                     \<lparr>err = Some (''create file: '' @ x), cache = d,
                      at_return = fs, files = cleanup e fs tmpFilename targetDir, sent = [req],
                      calls = Create tmpFilename # deferred\<rparr>
                 | None \<Rightarrow>
                    let fs1 = os_Create fs tmpFilename (clock e);
                        st = \<lparr>StatusURL = url, StatusFilename = filename, Copied = 0, Total = fileLength\<rparr>;
                        d1 = d\<lparr>dashboard := (dashboard d)(hash \<mapsto> st)\<rparr>;
                        d2 = d1\<lparr>dashboard := (dashboard d1)(hash := None)\<rparr>
                    in case (case faults e (Copy tmpFilename) of Some x \<Rightarrow> Some x | None \<Rightarrow> BodyError res) of
                         Some x \<Rightarrow>
                           let fs2 = (if faults e (Remove tmpFilename) = None
                                      then os_Remove fs1 tmpFilename else fs1)
                           in \<lparr>err = Some x, cache = d2,
                               at_return = fs2, files = cleanup e fs2 tmpFilename targetDir, sent = [req],
                               calls = [Create tmpFilename, Copy tmpFilename, Close tmpFilename,
                                        Remove tmpFilename] @ deferred\<rparr>
                       | None \<Rightarrow>
                          let sz = (of_nat (length (Body res)) :: 64 word);
                              fs2 = fs1(tmpFilename \<mapsto> File (Bytes (Body res)) (clock e));
                              c3 = [Create tmpFilename, Copy tmpFilename, Close tmpFilename]
                          in case faults e (Close tmpFilename) of
                               Some x \<Rightarrow>
                                 \<lparr>err = Some x, cache = d2,
                                  at_return = fs2, files = cleanup e fs2 tmpFilename targetDir, sent = [req],
                                  calls = c3 @ deferred\<rparr>
                             | None \<Rightarrow>
                                (case faults e (MkdirAll targetDir) of
                                   Some x \<Rightarrow>
                                     \<lparr>err = Some x, cache = d2,
                                      at_return = fs2, files = cleanup e fs2 tmpFilename targetDir, sent = [req],
                                      calls = c3 @ [MkdirAll targetDir] @ deferred\<rparr>
                                 | None \<Rightarrow>
                                    let fs3 = os_MkdirAll fs2 targetDir;
                                        targetPath = filepath_Join [targetDir, ''cached.file''];
                                        c5 = c3 @ [MkdirAll targetDir, Rename tmpFilename targetPath]
                                    in case faults e (Rename tmpFilename targetPath) of
                                         Some x \<Rightarrow>
                                           \<lparr>err = Some x, cache = d2,
                                            at_return = fs3, files = cleanup e fs3 tmpFilename targetDir, sent = [req],
                                            calls = c5 @ deferred\<rparr>
                                       | None \<Rightarrow>
                                          let fs4 = os_Rename fs3 tmpFilename targetPath;
                                              metaData = marshal_meta filename sz url (clock e);
                                              metaPath = filepath_Join [targetDir, ''meta.json'']
                                          in case faults e (WriteFile metaPath) of
                                               Some x \<Rightarrow>
                                                 \<lparr>err = Some x, cache = d2, at_return = fs4,
                                                  files = cleanup e fs4 tmpFilename targetDir,
                                                  sent = [req],
                                                  calls = c5 @ [WriteFile metaPath] @ deferred\<rparr>
                                             | None \<Rightarrow>
                                                (case faults e (WriteData metaPath) of
                                                   Some x \<Rightarrow>
                                                     let fs5 = ioutil_WriteFile fs4 metaPath
                                                                 (Bytes []) (clock e)
                                                     in \<lparr>err = Some x, cache = d2, at_return = fs5,
                                                         files = cleanup e fs5 tmpFilename targetDir,
                                                         sent = [req],
                                                         calls = c5 @ [WriteFile metaPath] @ deferred\<rparr>
                                                 | None \<Rightarrow>
                                                     let fs5 = ioutil_WriteFile fs4 metaPath
                                                                 (Document metaData) (clock e)
                                                     in \<lparr>err = None, cache = d2, at_return = fs5,
                                                         files = fs5,
                                                         sent = [req],
                                                         calls = c5 @ [WriteFile metaPath]\<rparr>)))"

subsection \<open>\<^verbatim>\<open>DownloadAndWait\<close> (lines 241--273)\<close>

text \<open>
  The first critical section (lines 242--263) decides what the caller does: return at
  once (\<open>Hit\<close>), wait on a channel of its own (\<open>Join\<close>), or download (\<open>Lead\<close>, with the
  key and the file name it goes on with).
\<close>

datatype admission = Hit | Join nat | Lead string string

definition admit :: "DownloadCache \<Rightarrow> filesystem \<Rightarrow> string \<Rightarrow> string \<Rightarrow> admission \<times> DownloadCache" where
  "admit d fs url filename0 =
     (let filename = (if filename0 = [] then ''cached.file'' else filename0);
          dir = downloadDir d url
      in if os_Stat fs (dir @ ''/meta.json'') then (Hit, d)
         else
           let hash = HashString url in
           if workers d hash then
             (case unsafeAddWaiter d hash of (d', waitChan) \<Rightarrow> (Join waitChan, d'))
           else (Lead hash filename, d\<lparr>workers := (workers d)(hash := True)\<rparr>))"

text \<open>
  One call of \<^verbatim>\<open>DownloadAndWait\<close> with no other goroutine running: it returns an error
  value (\<open>Returned\<close>), or it blocks, receiving from its channel (\<open>Receiving\<close>) or sending
  to a waiter whose buffer is full (\<open>Sending\<close>). \<open>fetches\<close> are the requests sent to the
  origin during the call.
\<close>

datatype returned = Returned "error option" | Receiving nat | Sending

record call =
  ret :: returned
  engine :: DownloadCache
  store :: filesystem
  fetches :: "Request list"
  notified :: "(nat \<times> error option) list"

definition DownloadAndWait :: "env \<Rightarrow> DownloadCache \<Rightarrow> filesystem \<Rightarrow> string \<Rightarrow> string \<Rightarrow> call" where
  "DownloadAndWait e d fs url filename =
     (case admit d fs url filename of
        (Hit, d') \<Rightarrow>
          \<lparr>ret = Returned None, engine = d', store = fs, fetches = [], notified = []\<rparr>
      | (Join waitChan, d') \<Rightarrow>
          (case chan_recv (chans d') waitChan of
             None \<Rightarrow> \<lparr>ret = Receiving waitChan, engine = d', store = fs, fetches = [], notified = []\<rparr>
           | Some (v, cs) \<Rightarrow>
               \<lparr>ret = Returned v, engine = d'\<lparr>chans := cs\<rparr>, store = fs, fetches = [], notified = []\<rparr>)
      | (Lead hash filename', d') \<Rightarrow>
          let r = download e d' fs url filename' in
          (case unsafeNotifyWaiters (cache r) hash (err r) of
             None \<Rightarrow>
               \<lparr>ret = Sending, engine = cache r, store = files r, fetches = sent r, notified = []\<rparr>
           | Some (d'', sends) \<Rightarrow>
               \<lparr>ret = Returned (err r), engine = d'', store = files r, fetches = sent r,
                notified = sends\<rparr>))"

subsection \<open>\<^verbatim>\<open>ServeFile\<close> (lines 276--305)\<close>

text \<open>
  What \<^verbatim>\<open>ServeFile\<close> answers: 404, 500 with a message, or the payload, served by
  \<^verbatim>\<open>http.ServeContent\<close> with the decoded \<^verbatim>\<open>info\<close>.
\<close>

datatype served = NotFound | ServerError error | Content meta_info content

definition ServeFile :: "env \<Rightarrow> DownloadCache \<Rightarrow> filesystem \<Rightarrow> string \<Rightarrow> served \<times> filesystem" where
  "ServeFile e d fs url =
     (let dir = downloadDir d url;
          metaPath = filepath_Join [dir, ''meta.json'']
      in case ioutil_ReadFile fs metaPath of
           Inl x \<Rightarrow> (NotFound, fs)
         | Inr metaData \<Rightarrow>
            (case (case metaData of
                     Bytes b \<Rightarrow> Inl ''invalid character looking for beginning of value''
                   | Document doc \<Rightarrow> unmarshal_info doc) of
               Inl x \<Rightarrow> (ServerError x, fs)
             | Inr info \<Rightarrow>
                let fs' = os_Chtimes fs metaPath (clock e) in
                (case os_Open fs' (filepath_Join [dir, ''cached.file'']) of
                   Inl x \<Rightarrow> (ServerError x, fs')
                 | Inr f \<Rightarrow> (Content info f, fs'))))"

subsection \<open>Callers that arrive during a fetch\<close>

text \<open>
  A caller that downloads holds no lock while it does (lines 263--268), so other
  callers of \<^verbatim>\<open>DownloadAndWait\<close> run their first critical section in the meantime, one
  after the other, each against the file system as it is when the caller arrives.
  \<open>arrivals\<close> runs these critical sections for one URL, in the order of arrival; each
  arrival comes with the file system it sees and its file name. The download changes
  only the dashboard of the cache and an arrival only the waiter lists and the
  channels, so the order in which a model runs the download and the arrivals does not
  matter to either.
\<close>

fun arrivals :: "DownloadCache \<Rightarrow> string \<Rightarrow> (filesystem \<times> string) list
                    \<Rightarrow> DownloadCache \<times> admission list" where
  "arrivals d url [] = (d, [])"
| "arrivals d url (seen # later) =
     (case admit d (fst seen) url (snd seen) of
        (a, d') \<Rightarrow> (case arrivals d' url later of (d'', as) \<Rightarrow> (d'', a # as)))"

text \<open>The channels of the arrivals that wait, in the order of arrival.\<close>

fun joined :: "admission list \<Rightarrow> nat list" where
  "joined [] = []"
| "joined (Join ch # as) = ch # joined as"
| "joined (a # as) = joined as"

definition hit_or_join :: "admission \<Rightarrow> bool" where
  "hit_or_join a = (case a of Lead hash filename \<Rightarrow> False | _ \<Rightarrow> True)"

subsection \<open>Well-formed waiter lists\<close>

text \<open>
  What holds of the waiter lists in every state the code reaches (it holds of a new
  cache, and \<^verbatim>\<open>DownloadAndWait\<close> and a receive keep it): a registered channel exists, has
  capacity one and an empty buffer, and is registered once, in one list.
\<close>

definition registered :: "DownloadCache \<Rightarrow> nat \<Rightarrow> bool" where
  "registered d ch = (ch < length (chans d) \<and> cap (chans d ! ch) = 1 \<and> buf (chans d ! ch) = [])"

definition waiters_ready :: "DownloadCache \<Rightarrow> bool" where
  "waiters_ready d =
     ((\<forall>h. distinct (waiting d h) \<and> list_all (registered d) (waiting d h)) \<and>
      (\<forall>h h'. h \<noteq> h' \<longrightarrow> set (waiting d h) \<inter> set (waiting d h') = {}))"

section \<open>The sweep: \<^verbatim>\<open>Clean\<close> (lines 312--331)\<close>

text \<open>
  \<^verbatim>\<open>filepath.Walk\<close> reads the store as a tree, so the sweep is modelled on the tree under
  the cache directory: a file with its modification time, a directory with its
  modification time, whether its names can be read, and its entries in the order
  \<^verbatim>\<open>readDirNames\<close> lists them (sorted by name), or a name whose \<^verbatim>\<open>Lstat\<close> fails. Times are
  nanoseconds; a \<^verbatim>\<open>time.Duration\<close> is a signed 64-bit count of them, and \<^verbatim>\<open>time.Since\<close>
  saturates at its bounds.
\<close>

datatype dirtree =
    FileInfo int
  | DirInfo int bool "(string \<times> dirtree) list"
  | NoInfo

datatype logline = Failure string | Cleaned string int

record sweep =
  cacheDir :: string
  keepDuration :: int
  present :: int

definition time_Since :: "int \<Rightarrow> int \<Rightarrow> int" where
  "time_Since now t = max (- (2 ^ 63)) (min (2 ^ 63 - 1) (now - t))"

text \<open>
  The function literal of \<^verbatim>\<open>Clean\<close> on a path whose \<^verbatim>\<open>Lstat\<close> succeeded and whose
  names, for a directory, could be read (\<^verbatim>\<open>err == nil\<close>): whether it removes the parent
  directory of the path, and what it logs. It returns \<^verbatim>\<open>nil\<close>.
\<close>

definition visit :: "sweep \<Rightarrow> string \<Rightarrow> string \<Rightarrow> int \<Rightarrow> bool \<times> logline list" where
  "visit s path name modTime =
     (if name \<noteq> ''meta.json'' then (False, [])
      else
        let existsDuration = time_Since (present s) modTime in
        if existsDuration > keepDuration s then (True, [Cleaned path existsDuration])
        else (False, []))"

text \<open>
  \<^verbatim>\<open>filepath.Walk\<close> with that function (the implementation of Go 1.12 and later, which
  reads a directory's names before it calls the function on the directory). With
  \<^verbatim>\<open>err != nil\<close> the function prints the failure and returns the error, and \<^verbatim>\<open>Walk\<close>
  returns it. A result is: whether the walk was ended by an error, whether the parent
  of the path was removed, what is left at the path, and the log.

  Once a directory is removed, \<^verbatim>\<open>Lstat\<close> fails on each of its names still to be visited.
\<close>

fun walk :: "sweep \<Rightarrow> string \<Rightarrow> string \<Rightarrow> dirtree \<Rightarrow> bool \<times> bool \<times> dirtree option \<times> logline list"
  and walk_names :: "sweep \<Rightarrow> string \<Rightarrow> bool \<Rightarrow> (string \<times> dirtree) list
                       \<Rightarrow> bool \<times> bool \<times> (string \<times> dirtree) list \<times> logline list" where
  "walk s path name NoInfo = (True, False, Some NoInfo, [Failure (cacheDir s)])"
| "walk s path name (FileInfo modTime) =
     (case visit s path name modTime of
        (gone, l) \<Rightarrow> (False, gone, if gone then None else Some (FileInfo modTime), l))"
| "walk s path name (DirInfo modTime readable entries) =
     (if \<not> readable then
        (True, False, Some (DirInfo modTime readable entries), [Failure (cacheDir s)])
      else
        case visit s path name modTime of
          (gone, l) \<Rightarrow>
            (case walk_names s path gone entries of
               (stopped, removed, entries', l') \<Rightarrow>
                 (stopped, gone,
                  if removed then None else Some (DirInfo modTime readable entries'), l @ l')))"
| "walk_names s path removed [] = (False, removed, [], [])"
| "walk_names s path removed (entry # rest) =
     (if removed \<or> snd entry = NoInfo then
        (True, removed, if removed then [] else entry # rest, [Failure (cacheDir s)])
      else
        case walk s (path @ ''/'' @ fst entry) (fst entry) (snd entry) of
          (stopped, gone, left, l) \<Rightarrow>
            let here = (case left of None \<Rightarrow> [] | Some t \<Rightarrow> [(fst entry, t)]) in
            if stopped then (True, gone, if gone then [] else here @ rest, l)
            else
              (case walk_names s path gone rest of
                 (stopped', removed', rest', l') \<Rightarrow>
                   (stopped', removed', if removed' then [] else here @ rest', l @ l')))"

definition filepath_Base :: "string \<Rightarrow> string" where
  "filepath_Base p = rev (takeWhile (\<lambda>c. c \<noteq> CHR ''/'') (rev p))"

text \<open>
  \<^verbatim>\<open>Clean\<close> walks from the cache directory and drops what \<^verbatim>\<open>Walk\<close> returns. The result is
  what is left of the tree and the log; \<open>swept_all\<close> says that no error ended the walk.
\<close>

definition Clean :: "sweep \<Rightarrow> dirtree \<Rightarrow> dirtree option \<times> logline list" where
  "Clean s root =
     (case walk s (cacheDir s) (filepath_Base (cacheDir s)) root of
        (stopped, gone, left, l) \<Rightarrow> (if gone then None else left, l))"




section \<open>Sample runs\<close>

text \<open>
  A cache on the directory \<^verbatim>\<open>data\<close>, an origin that answers 200 with a five-byte body,
  one that answers 404, and a system where no call fails.
\<close>

definition cache0 :: DownloadCache where
  "cache0 = NewDownloadCache ''data''"

definition origin_200 :: "Request \<Rightarrow> error + Response" where
  "origin_200 req =
     Inr \<lparr>StatusCode = 200, Status = ''200 OK'', ContentLength = Some 5, Body = ''hello'',
          BodyError = None\<rparr>"

definition origin_404 :: "Request \<Rightarrow> error + Response" where
  "origin_404 req =
     Inr \<lparr>StatusCode = 404, Status = ''404 Not Found'', ContentLength = None, Body = [],
          BodyError = None\<rparr>"

definition env_200 :: env where
  "env_200 = \<lparr>origin = origin_200, faults = (\<lambda>c. None), clock = 1000\<rparr>"

definition env_404 :: env where
  "env_404 = \<lparr>origin = origin_404, faults = (\<lambda>c. None), clock = 1000\<rparr>"

text \<open>A store in which the entry directory of the URL \<^verbatim>\<open>u\<close> exists and is empty.\<close>

definition fs_empty_entry :: filesystem where
  "fs_empty_entry = [downloadDir cache0 ''u'' \<mapsto> Directory]"

text \<open>
  A sweep at time 100 with retention 10, over two stores. In the first, the cache
  directory lists a staging file that is gone by the time \<^verbatim>\<open>Lstat\<close> reads it, and then a
  shard with one entry last touched at time 0. In the second, nothing fails, and a shard
  holds an entry touched at time 95 and one touched at time 0.
\<close>

definition sweep0 :: sweep where
  "sweep0 = \<lparr>cacheDir = ''data'', keepDuration = 10, present = 100\<rparr>"


definition store_without_failure :: dirtree where
  "store_without_failure =
     DirInfo 0 True
       [(''ff'', DirInfo 0 True
           [(''aa'', DirInfo 95 True [(''cached.file'', FileInfo 95), (''meta.json'', FileInfo 95)]),
            (''bb'', DirInfo 0 True [(''cached.file'', FileInfo 0), (''meta.json'', FileInfo 0)])])]"

text \<open>A system whose disk is full when the metadata is written.\<close>

definition env_disk_full :: env where
  "env_disk_full =
     \<lparr>origin = origin_200,
      faults = (\<lambda>c. case c of WriteData p \<Rightarrow> Some ''no space left on device'' | _ \<Rightarrow> None),
      clock = 1000\<rparr>"

text \<open>A system whose disk is full when the staged payload is renamed.\<close>

definition env_rename_fails :: env where
  "env_rename_fails =
     \<lparr>origin = origin_200,
      faults = (\<lambda>c. case c of Rename a b \<Rightarrow> Some ''no space left on device'' | _ \<Rightarrow> None),
      clock = 1000\<rparr>"

text \<open>The same entry directory with a \<^verbatim>\<open>meta.json\<close> that holds one brace.\<close>

definition fs_broken_entry :: filesystem where
  "fs_broken_entry =
     fs_empty_entry(filepath_Join [downloadDir cache0 ''u'', ''meta.json''] \<mapsto> File (Bytes ''{'') 0)"

section \<open>Properties\<close>

subsection \<open>Keys and paths\<close>

lemma length_bytes_le: "length (bytes_le k w) = k"
  by (simp add: bytes_le_def)

lemma length_md5_Sum: "length (md5_Sum bs) = 16"
  by (simp add: md5_Sum_def length_bytes_le split: prod.splits)

lemma length_hex_byte: "length (hex_byte b) = 2"
  by (simp add: hex_byte_def)

lemma length_concat_hex: "length (concat (map hex_byte bs)) = 2 * length bs"
  by (induction bs) (simp_all add: length_hex_byte)

lemma length_HashString: "length (HashString s) = 32"
  by (simp add: HashString_def length_concat_hex length_md5_Sum)




lemma Join2: "b \<noteq> [] \<Longrightarrow> filepath_Join [a, b] = (if a = [] then b else a @ ''/'' @ b)"
  by (simp add: filepath_Join_def)

lemma Join3:
  "b \<noteq> [] \<Longrightarrow> c \<noteq> [] \<Longrightarrow>
   filepath_Join [a, b, c] = (if a = [] then b @ ''/'' @ c else a @ ''/'' @ b @ ''/'' @ c)"
  by (simp add: filepath_Join_def)

lemma take2_hash: "take 2 (HashString u) \<noteq> []" and drop2_hash: "drop 2 (HashString u) \<noteq> []"
  using length_HashString [of u] by auto

lemma downloadDir_shape:
  "downloadDir d url =
     (if CacheDir d = [] then take 2 (HashString url) @ ''/'' @ drop 2 (HashString url)
      else CacheDir d @ ''/'' @ take 2 (HashString url) @ ''/'' @ drop 2 (HashString url))"
proof -
  have ne: "HashString url \<noteq> []" using length_HashString [of url] by auto
  show ?thesis
    by (simp add: downloadDir_def Let_def Join3 length_HashString ne)
qed

lemma downloadDir_nonempty: "downloadDir d url \<noteq> []"
  using take2_hash [of url] by (simp add: downloadDir_shape)

lemma Join_dir: "f \<noteq> [] \<Longrightarrow> filepath_Join [downloadDir d url, f] = downloadDir d url @ ''/'' @ f"
  by (simp add: Join2 downloadDir_nonempty)

lemma tmp_shape:
  "filepath_Join [CacheDir d, HashString url @ ''.tmp''] =
     (if CacheDir d = [] then HashString url @ ''.tmp'' else CacheDir d @ ''/'' @ HashString url @ ''.tmp'')"
  by (simp add: Join2)

lemma last_tmp: "last (filepath_Join [CacheDir d, HashString url @ ''.tmp'']) = CHR ''p''"
  by (simp add: tmp_shape)

lemma tmp_not_cached:
  "filepath_Join [CacheDir d, HashString url @ ''.tmp''] \<noteq> downloadDir d url' @ ''/cached.file''"
proof
  assume "filepath_Join [CacheDir d, HashString url @ ''.tmp''] = downloadDir d url' @ ''/cached.file''"
  then have "last (filepath_Join [CacheDir d, HashString url @ ''.tmp'']) = last (downloadDir d url' @ ''/cached.file'')"
    by simp
  then show False by (simp add: last_tmp)
qed

lemma tmp_not_meta:
  "filepath_Join [CacheDir d, HashString url @ ''.tmp''] \<noteq> downloadDir d url' @ ''/meta.json''"
proof
  assume "filepath_Join [CacheDir d, HashString url @ ''.tmp''] = downloadDir d url' @ ''/meta.json''"
  then have "last (filepath_Join [CacheDir d, HashString url @ ''.tmp'']) = last (downloadDir d url' @ ''/meta.json'')"
    by simp
  then show False by (simp add: last_tmp)
qed

subsection \<open>What a successful download leaves\<close>

lemma download_success:
  assumes "err (download e d fs url filename) = None"
  shows "\<exists>res. origin e (request d url) = Inr res \<and> StatusCode res = 200 \<and> BodyError res = None \<and>
     download e d fs url filename =
       (let tmp = filepath_Join [CacheDir d, HashString url @ ''.tmp''];
            dir = downloadDir d url;
            target = filepath_Join [dir, ''cached.file''];
            metaPath = filepath_Join [dir, ''meta.json''];
            fs2 = (os_Create fs tmp (clock e))(tmp \<mapsto> File (Bytes (Body res)) (clock e))
        in \<lparr>err = None,
            cache = d\<lparr>dashboard := (dashboard d)(HashString url := None)\<rparr>,
            at_return = ioutil_WriteFile (os_Rename (os_MkdirAll fs2 dir) tmp target) metaPath
                      (Document (marshal_meta filename (of_nat (length (Body res))) url (clock e)))
                      (clock e),
            files = ioutil_WriteFile (os_Rename (os_MkdirAll fs2 dir) tmp target) metaPath
                      (Document (marshal_meta filename (of_nat (length (Body res))) url (clock e)))
                      (clock e),
            sent = [request d url],
            calls = [Create tmp, Copy tmp, Close tmp, MkdirAll dir, Rename tmp target,
                     WriteFile metaPath]\<rparr>)"
proof -
  let ?tmp = "filepath_Join [CacheDir d, HashString url @ ''.tmp'']"
  let ?dir = "downloadDir d url"
  obtain res where r: "origin e (request d url) = Inr res"
    using assms by (cases "origin e (request d url)") (simp_all add: download_def Let_def)
  have s: "StatusCode res = 200"
    using assms r by (cases "StatusCode res = 200") (simp_all add: download_def Let_def)
  have c: "faults e (Create ?tmp) = None"
    using assms r s by (cases "faults e (Create ?tmp)") (simp_all add: download_def Let_def)
  have p: "faults e (Copy ?tmp) = None"
    using assms r s c by (cases "faults e (Copy ?tmp)") (simp_all add: download_def Let_def)
  have b: "BodyError res = None"
    using assms r s c p by (cases "BodyError res") (simp_all add: download_def Let_def)
  have cl: "faults e (Close ?tmp) = None"
    using assms r s c p b by (cases "faults e (Close ?tmp)") (simp_all add: download_def Let_def)
  have mk: "faults e (MkdirAll ?dir) = None"
    using assms r s c p b cl by (cases "faults e (MkdirAll ?dir)") (simp_all add: download_def Let_def)
  have rn: "faults e (Rename ?tmp (filepath_Join [?dir, ''cached.file''])) = None"
    using assms r s c p b cl mk
    by (cases "faults e (Rename ?tmp (filepath_Join [?dir, ''cached.file'']))")
       (simp_all add: download_def Let_def)
  have wr: "faults e (WriteFile (filepath_Join [?dir, ''meta.json''])) = None"
    using assms r s c p b cl mk rn
    by (cases "faults e (WriteFile (filepath_Join [?dir, ''meta.json'']))")
       (simp_all add: download_def Let_def)
  have wd: "faults e (WriteData (filepath_Join [?dir, ''meta.json''])) = None"
    using assms r s c p b cl mk rn wr
    by (cases "faults e (WriteData (filepath_Join [?dir, ''meta.json'']))")
       (simp_all add: download_def Let_def)
  show ?thesis
    using r s c p b cl mk rn wr wd by (simp add: download_def Let_def)
qed

lemma download_success_files:
  assumes ok: "err (download e d fs url filename) = None"
    and res: "origin e (request d url) = Inr res"
  shows "files (download e d fs url filename) (downloadDir d url @ ''/cached.file'')
           = Some (File (Bytes (Body res)) (clock e))"
    and "files (download e d fs url filename) (downloadDir d url @ ''/meta.json'')
           = Some (File (Document (marshal_meta filename (of_nat (length (Body res))) url (clock e)))
                    (clock e))"
    and "files (download e d fs url filename) (filepath_Join [CacheDir d, HashString url @ ''.tmp''])
           = None"
    and "calls (download e d fs url filename) =
           [Create (filepath_Join [CacheDir d, HashString url @ ''.tmp'']),
            Copy (filepath_Join [CacheDir d, HashString url @ ''.tmp'']),
            Close (filepath_Join [CacheDir d, HashString url @ ''.tmp'']),
            MkdirAll (downloadDir d url),
            Rename (filepath_Join [CacheDir d, HashString url @ ''.tmp''])
                   (downloadDir d url @ ''/cached.file''),
            WriteFile (downloadDir d url @ ''/meta.json'')]"
    and "sent (download e d fs url filename) = [request d url]"
    and "cache (download e d fs url filename) = d\<lparr>dashboard := (dashboard d)(HashString url := None)\<rparr>"
proof -
  from download_success [OF ok] res
  have eq: "download e d fs url filename =
       (let tmp = filepath_Join [CacheDir d, HashString url @ ''.tmp''];
            dir = downloadDir d url;
            target = filepath_Join [dir, ''cached.file''];
            metaPath = filepath_Join [dir, ''meta.json''];
            fs2 = (os_Create fs tmp (clock e))(tmp \<mapsto> File (Bytes (Body res)) (clock e))
        in \<lparr>err = None,
            cache = d\<lparr>dashboard := (dashboard d)(HashString url := None)\<rparr>,
            at_return = ioutil_WriteFile (os_Rename (os_MkdirAll fs2 dir) tmp target) metaPath
                      (Document (marshal_meta filename (of_nat (length (Body res))) url (clock e)))
                      (clock e),
            files = ioutil_WriteFile (os_Rename (os_MkdirAll fs2 dir) tmp target) metaPath
                      (Document (marshal_meta filename (of_nat (length (Body res))) url (clock e)))
                      (clock e),
            sent = [request d url],
            calls = [Create tmp, Copy tmp, Close tmp, MkdirAll dir, Rename tmp target,
                     WriteFile metaPath]\<rparr>)"
    by auto
  show "files (download e d fs url filename) (downloadDir d url @ ''/cached.file'')
           = Some (File (Bytes (Body res)) (clock e))"
    unfolding eq
    by (simp add: Let_def Join_dir ioutil_WriteFile_def os_Rename_def os_MkdirAll_def os_Create_def
          tmp_not_cached tmp_not_cached [symmetric] tmp_not_meta)
  show "files (download e d fs url filename) (downloadDir d url @ ''/meta.json'')
           = Some (File (Document (marshal_meta filename (of_nat (length (Body res))) url (clock e)))
                    (clock e))"
    unfolding eq by (simp add: Let_def Join_dir ioutil_WriteFile_def)
  show "files (download e d fs url filename) (filepath_Join [CacheDir d, HashString url @ ''.tmp''])
           = None"
    unfolding eq
    by (simp add: Let_def Join_dir ioutil_WriteFile_def os_Rename_def tmp_not_cached tmp_not_meta
          tmp_not_cached [symmetric] tmp_not_meta [symmetric])
  show "calls (download e d fs url filename) =
           [Create (filepath_Join [CacheDir d, HashString url @ ''.tmp'']),
            Copy (filepath_Join [CacheDir d, HashString url @ ''.tmp'']),
            Close (filepath_Join [CacheDir d, HashString url @ ''.tmp'']),
            MkdirAll (downloadDir d url),
            Rename (filepath_Join [CacheDir d, HashString url @ ''.tmp''])
                   (downloadDir d url @ ''/cached.file''),
            WriteFile (downloadDir d url @ ''/meta.json'')]"
    unfolding eq by (simp add: Let_def Join_dir)
  show "sent (download e d fs url filename) = [request d url]"
    unfolding eq by (simp add: Let_def)
  show "cache (download e d fs url filename) = d\<lparr>dashboard := (dashboard d)(HashString url := None)\<rparr>"
    unfolding eq by (simp add: Let_def)
qed

lemma download_env_200: "err (download env_200 d fs url filename) = None"
  by (simp add: download_def env_200_def origin_200_def Let_def)

lemma sint_length: "n < 2 ^ 63 \<Longrightarrow> sint (of_nat n :: 64 word) = int n"
proof -
  assume "n < 2 ^ 63"
  then have "int n < 2 ^ 63" by (metis of_nat_less_iff of_nat_numeral of_nat_power)
  then have "signed_take_bit 63 (int n) = int n"
    by (simp add: signed_take_bit_int_eq_self)
  then show ?thesis by (simp add: signed_of_nat)
qed

lemma sint_roundtrip: "int64_range (sint (w :: 64 word))" 
  using sint_lt [of w] sint_ge [of w] by (simp add: int64_range_def)


subsection \<open>The key and the layout of an entry\<close>



subsection \<open>The commit sequence\<close>

text \<open>
  C6. A download that returns no error made exactly these calls, in this order: create
  the staging file, copy the body into it, close it, make the entry directory, rename
  the staging file to \<^verbatim>\<open>cached.file\<close> in the entry directory (the one rename), write
  \<^verbatim>\<open>meta.json\<close>. So the metadata is written last, after the rename. Afterwards the entry
  directory holds the body under \<^verbatim>\<open>cached.file\<close> and a \<^verbatim>\<open>meta.json\<close> whose \<^verbatim>\<open>size\<close> is the
  count that the copy returned, the number of bytes of the body.
\<close>

theorem commit_renames_then_writes_metadata:
  assumes "err (download e d fs url filename) = None"
  shows "\<exists>res tmp.
     origin e (request d url) = Inr res \<and>
     calls (download e d fs url filename) =
       [Create tmp, Copy tmp, Close tmp, MkdirAll (downloadDir d url),
        Rename tmp (filepath_Join [downloadDir d url, ''cached.file'']),
        WriteFile (filepath_Join [downloadDir d url, ''meta.json''])] \<and>
     files (download e d fs url filename) (filepath_Join [downloadDir d url, ''cached.file''])
       = Some (File (Bytes (Body res)) (clock e)) \<and>
     files (download e d fs url filename) (filepath_Join [downloadDir d url, ''meta.json''])
       = Some (File (Document (JObject
            [(''filename'', JString (coerce_utf8 filename)),
             (''size'', JNumber (sint (of_nat (length (Body res)) :: 64 word))),
             (''time'', JNumber (sint (clock e))),
             (''url'', JString (coerce_utf8 url))])) (clock e)) \<and>
     (length (Body res) < 2 ^ 63 \<longrightarrow>
        sint (of_nat (length (Body res)) :: 64 word) = int (length (Body res)))"
proof -
  from download_success [OF assms] obtain res where res: "origin e (request d url) = Inr res"
    by blast
  show ?thesis
    using res download_success_files(1,2,4) [OF assms res]
    by (simp add: Join_dir marshal_meta_def sint_length)
qed

theorem commit_renames_then_writes_metadata_witness:
  "err (download env_200 cache0 Map.empty ''u'' ''f'') = None \<and>
   length ''hello'' < (2::nat) ^ 63 \<and>
   (\<exists>res tmp.
     origin env_200 (request cache0 ''u'') = Inr res \<and>
     calls (download env_200 cache0 Map.empty ''u'' ''f'') =
       [Create tmp, Copy tmp, Close tmp, MkdirAll (downloadDir cache0 ''u''),
        Rename tmp (filepath_Join [downloadDir cache0 ''u'', ''cached.file'']),
        WriteFile (filepath_Join [downloadDir cache0 ''u'', ''meta.json''])] \<and>
     files (download env_200 cache0 Map.empty ''u'' ''f'')
        (filepath_Join [downloadDir cache0 ''u'', ''cached.file''])
       = Some (File (Bytes (Body res)) (clock env_200)))"
  using commit_renames_then_writes_metadata [OF download_env_200 [of cache0 Map.empty "''u''" "''f''"]]
    download_env_200 [of cache0 Map.empty "''u''" "''f''"]
  by auto

subsection \<open>A response other than 200\<close>

text \<open>
  C7, as the claim states it, fails where the entry directory is already on disk: the
  store \<open>fs_empty_entry\<close> holds the entry directory of \<^verbatim>\<open>u\<close> (without metadata), the
  origin answers 404, and the directory is still there after \<^verbatim>\<open>download\<close> returned its
  error. The closure that removes the directory is deferred at line 180, after the
  return of line 170.
\<close>

theorem non200_keeps_existing_entry_directory:
  "origin env_404 (request cache0 ''u'')
     = Inr \<lparr>StatusCode = 404, Status = ''404 Not Found'', ContentLength = None, Body = [],
            BodyError = None\<rparr> \<and>
   err (download env_404 cache0 fs_empty_entry ''u'' ''f'') = Some ''remote: 404 Not Found'' \<and>
   os_Stat (files (download env_404 cache0 fs_empty_entry ''u'' ''f'')) (downloadDir cache0 ''u'')"
  by (simp add: download_def env_404_def origin_404_def Let_def os_Stat_def fs_empty_entry_def)

text \<open>
  C7, amended. For a response with a status other than 200, \<^verbatim>\<open>download\<close> returns the
  error \<^verbatim>\<open>remote: \<close> followed by the status line, has sent one request and no other, has
  made no system call and leaves the cache and the store as they were: it creates no
  entry directory, and one is on disk afterwards exactly when it was there before.
\<close>

theorem non200_is_terminal_and_touches_nothing:
  assumes "origin e (request d url) = Inr res" and "StatusCode res \<noteq> 200"
  shows "download e d fs url filename =
           \<lparr>err = Some (''remote: '' @ Status res), cache = d, at_return = fs, files = fs,
            sent = [request d url], calls = []\<rparr> \<and>
         os_Stat (files (download e d fs url filename)) (downloadDir d url)
           = os_Stat fs (downloadDir d url)"
  using assms by (simp add: download_def Let_def)

theorem non200_is_terminal_and_touches_nothing_witness:
  "origin env_404 (request cache0 ''u'')
     = Inr \<lparr>StatusCode = 404, Status = ''404 Not Found'', ContentLength = None, Body = [],
            BodyError = None\<rparr> \<and>
   download env_404 cache0 Map.empty ''u'' ''f'' =
     \<lparr>err = Some ''remote: 404 Not Found'', cache = cache0, at_return = Map.empty,
      files = Map.empty, sent = [request cache0 ''u''], calls = []\<rparr> \<and>
   \<not> os_Stat (files (download env_404 cache0 Map.empty ''u'' ''f'')) (downloadDir cache0 ''u'')"
  using non200_is_terminal_and_touches_nothing [of env_404 cache0 "''u''"
      "\<lparr>StatusCode = 404, Status = ''404 Not Found'', ContentLength = None, Body = [],
        BodyError = None\<rparr>" Map.empty "''f''"]
  by (simp add: env_404_def origin_404_def os_Stat_def)


subsection \<open>Frames of the engine's operations\<close>

lemma download_cache:
  "cache (download e d fs url filename) = d \<or>
   cache (download e d fs url filename) = d\<lparr>dashboard := (dashboard d)(HashString url := None)\<rparr>"
  by (simp add: download_def Let_def split: sum.split option.split)

lemma download_keeps:
  "CacheDir (cache (download e d fs url filename)) = CacheDir d"
  "GetProxy (cache (download e d fs url filename)) = GetProxy d"
  "workers (cache (download e d fs url filename)) = workers d"
  "waiters (cache (download e d fs url filename)) = waiters d"
  "chans (cache (download e d fs url filename)) = chans d"
  using download_cache [of e d fs url filename] by auto

lemma download_sent: "sent (download e d fs url filename) = [request d url]"
  by (simp add: download_def Let_def split: sum.split option.split)

lemma unsafeAddWaiter_fresh:
  "snd (unsafeAddWaiter d hash) = length (chans d)"
  "chans (fst (unsafeAddWaiter d hash)) = chans d @ [\<lparr>cap = 1, buf = []\<rparr>]"
  "workers (fst (unsafeAddWaiter d hash)) = workers d"
  "CacheDir (fst (unsafeAddWaiter d hash)) = CacheDir d"
  "waiting (fst (unsafeAddWaiter d hash)) hash = waiting d hash @ [length (chans d)]"
  "h \<noteq> hash \<Longrightarrow> waiting (fst (unsafeAddWaiter d hash)) h = waiting d h"
  by (simp_all add: unsafeAddWaiter_def Let_def waiting_def)

lemma unsafeNotifyWaiters_keeps:
  assumes "unsafeNotifyWaiters d hash v = Some (d', sends)"
  shows "workers d' = workers d" "CacheDir d' = CacheDir d" "GetProxy d' = GetProxy d"
    "dashboard d' = dashboard d"
  using assms by (auto simp: unsafeNotifyWaiters_def split: option.splits)

lemma request_cong:
  "GetProxy d' = GetProxy d \<Longrightarrow> request d' url = request d url"
  by (simp add: request_def)

lemma downloadDir_cong:
  "CacheDir d' = CacheDir d \<Longrightarrow> downloadDir d' url = downloadDir d url"
  by (simp add: downloadDir_def)

lemma admit_Hit_iff:
  "(fst (admit d fs url filename) = Hit) = os_Stat fs (filepath_Join [downloadDir d url, ''meta.json''])"
  by (simp add: admit_def Let_def Join_dir split: prod.split)

lemma admit_Hit_state: "fst (admit d fs url filename) = Hit \<Longrightarrow> snd (admit d fs url filename) = d"
  by (simp add: admit_def Let_def split: prod.splits if_splits)

lemma admit_Lead:
  assumes "admit d fs url filename = (Lead hash filename', d')"
  shows "hash = HashString url" "filename' = (if filename = [] then ''cached.file'' else filename)"
    "d' = d\<lparr>workers := (workers d)(HashString url := True)\<rparr>" "\<not> workers d (HashString url)"
    "\<not> os_Stat fs (filepath_Join [downloadDir d url, ''meta.json''])"
  using assms by (auto simp: admit_def Let_def Join_dir split: prod.splits if_splits)

lemma admit_Join:
  assumes "admit d fs url filename = (Join ch, d')"
  shows "ch = length (chans d)" "d' = fst (unsafeAddWaiter d (HashString url))"
    "workers d (HashString url)"
    "\<not> os_Stat fs (filepath_Join [downloadDir d url, ''meta.json''])"
  using assms unsafeAddWaiter_fresh(1) [of d "HashString url"]
  by (auto simp: admit_def Let_def Join_dir split: prod.splits if_splits)

lemma admit_cases:
  obtains (Hit) "admit d fs url filename = (Hit, d)"
      "os_Stat fs (filepath_Join [downloadDir d url, ''meta.json''])"
  | (Join) "admit d fs url filename = (Join (length (chans d)), fst (unsafeAddWaiter d (HashString url)))"
      "\<not> os_Stat fs (filepath_Join [downloadDir d url, ''meta.json''])" "workers d (HashString url)"
  | (Lead) "admit d fs url filename =
        (Lead (HashString url) (if filename = [] then ''cached.file'' else filename),
         d\<lparr>workers := (workers d)(HashString url := True)\<rparr>)"
      "\<not> os_Stat fs (filepath_Join [downloadDir d url, ''meta.json''])" "\<not> workers d (HashString url)"
proof (cases "os_Stat fs (filepath_Join [downloadDir d url, ''meta.json''])")
  case True
  then have "admit d fs url filename = (Hit, d)"
    by (simp add: admit_def Let_def Join_dir)
  then show ?thesis using True by (rule that(1))
next
  case False
  show ?thesis
  proof (cases "workers d (HashString url)")
    case True
    with False have "admit d fs url filename
        = (Join (snd (unsafeAddWaiter d (HashString url))), fst (unsafeAddWaiter d (HashString url)))"
      by (simp add: admit_def Let_def Join_dir split: prod.split)
    then show ?thesis using False True by (simp add: unsafeAddWaiter_fresh(1) that(2))
  next
    case w: False
    with False have "admit d fs url filename =
        (Lead (HashString url) (if filename = [] then ''cached.file'' else filename),
         d\<lparr>workers := (workers d)(HashString url := True)\<rparr>)"
      by (simp add: admit_def Let_def Join_dir)
    then show ?thesis using False w by (rule that(3))
  qed
qed

lemma admit_empty_filename: "admit d fs url [] = admit d fs url ''cached.file''"
  by (simp add: admit_def Let_def)

lemma DownloadAndWait_Hit:
  assumes "os_Stat fs (filepath_Join [downloadDir d url, ''meta.json''])"
  shows "DownloadAndWait e d fs url filename =
           \<lparr>ret = Returned None, engine = d, store = fs, fetches = [], notified = []\<rparr>"
  using assms by (cases rule: admit_cases [of d fs url filename]) (simp_all add: DownloadAndWait_def)

lemma chan_recv_fresh: "chan_recv (cs @ [\<lparr>cap = n, buf = []\<rparr>]) (length cs) = None"
  by (simp add: chan_recv_def)

lemma DownloadAndWait_Join:
  assumes "\<not> os_Stat fs (filepath_Join [downloadDir d url, ''meta.json''])"
    and "workers d (HashString url)"
  shows "DownloadAndWait e d fs url filename =
           \<lparr>ret = Receiving (length (chans d)), engine = fst (unsafeAddWaiter d (HashString url)),
            store = fs, fetches = [], notified = []\<rparr>"
  using assms
  by (cases rule: admit_cases [of d fs url filename])
     (simp_all add: DownloadAndWait_def unsafeAddWaiter_fresh chan_recv_fresh)

lemma DownloadAndWait_Lead:
  assumes "\<not> os_Stat fs (filepath_Join [downloadDir d url, ''meta.json''])"
    and "\<not> workers d (HashString url)"
  shows "DownloadAndWait e d fs url filename =
     (let r = download e (d\<lparr>workers := (workers d)(HashString url := True)\<rparr>) fs url
                (if filename = [] then ''cached.file'' else filename)
      in case unsafeNotifyWaiters (cache r) (HashString url) (err r) of
           None \<Rightarrow> \<lparr>ret = Sending, engine = cache r, store = files r, fetches = sent r, notified = []\<rparr>
         | Some (d'', sends) \<Rightarrow>
             \<lparr>ret = Returned (err r), engine = d'', store = files r, fetches = sent r,
              notified = sends\<rparr>)"
  using assms
  by (cases rule: admit_cases [of d fs url filename]) (simp_all add: DownloadAndWait_def)

lemma DownloadAndWait_fetched:
  assumes "fetches (DownloadAndWait e d fs url filename) \<noteq> []"
  shows "\<not> os_Stat fs (filepath_Join [downloadDir d url, ''meta.json''])"
    and "\<not> workers d (HashString url)"
proof -
  show "\<not> os_Stat fs (filepath_Join [downloadDir d url, ''meta.json''])"
    using assms DownloadAndWait_Hit [of fs d url e filename] by auto
  then show "\<not> workers d (HashString url)"
    using assms DownloadAndWait_Join [of fs d url e filename] by auto
qed

lemma DownloadAndWait_keeps_CacheDir:
  "CacheDir (engine (DownloadAndWait e d fs url filename)) = CacheDir d"
proof (cases rule: admit_cases [of d fs url filename])
  case Hit
  then show ?thesis by (simp add: DownloadAndWait_Hit)
next
  case Join
  then show ?thesis by (simp add: DownloadAndWait_Join unsafeAddWaiter_fresh)
next
  case Lead
  then show ?thesis
    by (auto simp: DownloadAndWait_Lead Let_def download_keeps
        split: option.split dest: unsafeNotifyWaiters_keeps(2))
qed

lemma workers_never_cleared:
  assumes "workers d h"
  shows "workers (engine (DownloadAndWait e d fs url filename)) h"
proof (cases rule: admit_cases [of d fs url filename])
  case Hit
  then show ?thesis using assms by (simp add: DownloadAndWait_Hit)
next
  case Join
  then show ?thesis using assms by (simp add: DownloadAndWait_Join unsafeAddWaiter_fresh)
next
  case Lead
  then show ?thesis using assms
    by (auto simp: DownloadAndWait_Lead Let_def download_keeps
        split: option.split dest: unsafeNotifyWaiters_keeps(1))
qed

lemma leader_marks_worker:
  assumes "fetches (DownloadAndWait e d fs url filename) \<noteq> []"
  shows "workers (engine (DownloadAndWait e d fs url filename)) (HashString url)"
  using DownloadAndWait_fetched [OF assms]
  by (auto simp: DownloadAndWait_Lead Let_def download_keeps
      split: option.split dest: unsafeNotifyWaiters_keeps(1))

subsection \<open>After a failed fetch\<close>

text \<open>
  C1 (the code does not do what the claim says). A call of \<^verbatim>\<open>DownloadAndWait\<close> that
  fetched and returned an error leaves \<^verbatim>\<open>workers[hash]\<close> true: line 262 sets it and
  nothing resets it. The next call for the same key, still not cached, therefore takes
  the branch of line 255: it sends no request, registers a channel of its own and
  blocks receiving from it, with nothing buffered there.
\<close>

theorem failed_fetch_blocks_the_next_call:
  assumes failed: "ret (DownloadAndWait e d fs url filename) = Returned (Some x)"
    and fetched: "fetches (DownloadAndWait e d fs url filename) \<noteq> []"
    and uncached: "\<not> os_Stat (store (DownloadAndWait e d fs url filename))
                       (filepath_Join [downloadDir d url, ''meta.json''])"
  shows "\<exists>ch. ret (DownloadAndWait e' (engine (DownloadAndWait e d fs url filename))
                  (store (DownloadAndWait e d fs url filename)) url filename') = Receiving ch \<and>
              fetches (DownloadAndWait e' (engine (DownloadAndWait e d fs url filename))
                  (store (DownloadAndWait e d fs url filename)) url filename') = [] \<and>
              chan_recv (chans (engine (DownloadAndWait e' (engine (DownloadAndWait e d fs url filename))
                  (store (DownloadAndWait e d fs url filename)) url filename'))) ch = None"
proof -
  let ?r = "DownloadAndWait e d fs url filename"
  have w: "workers (engine ?r) (HashString url)"
    using fetched by (rule leader_marks_worker)
  have dir: "downloadDir (engine ?r) url = downloadDir d url"
    by (rule downloadDir_cong) (rule DownloadAndWait_keeps_CacheDir)
  from uncached dir
  have "\<not> os_Stat (store ?r) (filepath_Join [downloadDir (engine ?r) url, ''meta.json''])"
    by simp
  then have eq: "DownloadAndWait e' (engine ?r) (store ?r) url filename' =
           \<lparr>ret = Receiving (length (chans (engine ?r))),
            engine = fst (unsafeAddWaiter (engine ?r) (HashString url)),
            store = store ?r, fetches = [], notified = []\<rparr>"
    using w by (rule DownloadAndWait_Join)
  have "chan_recv (chans (fst (unsafeAddWaiter (engine ?r) (HashString url))))
          (length (chans (engine ?r))) = None"
    by (simp only: unsafeAddWaiter_fresh(2) chan_recv_fresh)
  then show ?thesis
    unfolding eq by simp
qed

lemma download_404:
  "download env_404 d fs url filename =
     \<lparr>err = Some ''remote: 404 Not Found'', cache = d, at_return = fs, files = fs,
      sent = [request d url], calls = []\<rparr>"
  by (simp add: download_def env_404_def origin_404_def Let_def)

lemma first_call_404:
  "DownloadAndWait env_404 cache0 Map.empty ''u'' ''f'' =
     \<lparr>ret = Returned (Some ''remote: 404 Not Found''),
      engine = cache0\<lparr>workers := (workers cache0)(HashString ''u'' := True)\<rparr>,
      store = Map.empty,
      fetches = [request cache0 ''u''],
      notified = []\<rparr>"
proof -
  have "\<not> os_Stat Map.empty (filepath_Join [downloadDir cache0 ''u'', ''meta.json''])"
    by (simp add: os_Stat_def)
  moreover have "\<not> workers cache0 (HashString ''u'')"
    by (simp add: cache0_def NewDownloadCache_def)
  ultimately show ?thesis
    by (simp add: DownloadAndWait_Lead download_404 unsafeNotifyWaiters_def waiting_def
        cache0_def NewDownloadCache_def request_def)
qed

theorem failed_fetch_blocks_the_next_call_witness:
  "ret (DownloadAndWait env_404 cache0 Map.empty ''u'' ''f'') = Returned (Some ''remote: 404 Not Found'') \<and>
   fetches (DownloadAndWait env_404 cache0 Map.empty ''u'' ''f'') \<noteq> [] \<and>
   \<not> os_Stat (store (DownloadAndWait env_404 cache0 Map.empty ''u'' ''f''))
         (filepath_Join [downloadDir cache0 ''u'', ''meta.json'']) \<and>
   (\<exists>ch. ret (DownloadAndWait env_200 (engine (DownloadAndWait env_404 cache0 Map.empty ''u'' ''f''))
                  (store (DownloadAndWait env_404 cache0 Map.empty ''u'' ''f'')) ''u'' ''f'') = Receiving ch \<and>
         fetches (DownloadAndWait env_200 (engine (DownloadAndWait env_404 cache0 Map.empty ''u'' ''f''))
                  (store (DownloadAndWait env_404 cache0 Map.empty ''u'' ''f'')) ''u'' ''f'') = [] \<and>
         chan_recv (chans (engine (DownloadAndWait env_200
                  (engine (DownloadAndWait env_404 cache0 Map.empty ''u'' ''f''))
                  (store (DownloadAndWait env_404 cache0 Map.empty ''u'' ''f'')) ''u'' ''f''))) ch = None)"
proof -
  have a: "ret (DownloadAndWait env_404 cache0 Map.empty ''u'' ''f'')
             = Returned (Some ''remote: 404 Not Found'')"
    by (simp add: first_call_404)
  have b: "fetches (DownloadAndWait env_404 cache0 Map.empty ''u'' ''f'') \<noteq> []"
    by (simp add: first_call_404)
  have c: "\<not> os_Stat (store (DownloadAndWait env_404 cache0 Map.empty ''u'' ''f''))
         (filepath_Join [downloadDir cache0 ''u'', ''meta.json''])"
    by (simp add: first_call_404 os_Stat_def)
  from failed_fetch_blocks_the_next_call [OF a b c, of env_200 "''f''"] a b c
  show ?thesis by blast
qed


subsection \<open>The default file name\<close>

text \<open>
  C10. A call of \<^verbatim>\<open>DownloadAndWait\<close> with the empty file name is the call with the name
  \<^verbatim>\<open>cached.file\<close>: the download never goes on with an empty name, and when the call
  fetches and succeeds, the metadata it wrote records the file name \<^verbatim>\<open>cached.file\<close>.
\<close>

theorem empty_filename_becomes_cached_file:
  "DownloadAndWait e d fs url [] = DownloadAndWait e d fs url ''cached.file'' \<and>
   (\<forall>hash. fst (admit d fs url []) \<noteq> Lead hash []) \<and>
   (fetches (DownloadAndWait e d fs url []) \<noteq> [] \<longrightarrow>
    ret (DownloadAndWait e d fs url []) = Returned None \<longrightarrow>
      (\<exists>sz. store (DownloadAndWait e d fs url []) (filepath_Join [downloadDir d url, ''meta.json''])
          = Some (File (Document (marshal_meta ''cached.file'' sz url (clock e))) (clock e))))"
proof (intro conjI impI allI)
  show "DownloadAndWait e d fs url [] = DownloadAndWait e d fs url ''cached.file''"
    by (simp add: DownloadAndWait_def admit_empty_filename)
  show "fst (admit d fs url []) \<noteq> Lead hash []" for hash
    by (cases rule: admit_cases [of d fs url "[]"]) simp_all
  assume f: "fetches (DownloadAndWait e d fs url []) \<noteq> []"
    and r: "ret (DownloadAndWait e d fs url []) = Returned None"
  let ?d = "d\<lparr>workers := (workers d)(HashString url := True)\<rparr>"
  let ?r = "download e ?d fs url ''cached.file''"
  note lead = DownloadAndWait_Lead [OF DownloadAndWait_fetched [OF f], of e, simplified Let_def]
  from r have ok: "err ?r = None"
    by (auto simp: lead split: option.splits)
  have st: "store (DownloadAndWait e d fs url []) = files ?r"
    by (auto simp: lead split: option.splits)
  from download_success [OF ok] obtain res where res: "origin e (request ?d url) = Inr res"
    by blast
  have dir: "downloadDir ?d url = downloadDir d url"
    by (rule downloadDir_cong) simp
  from download_success_files(2) [OF ok res]
  show "\<exists>sz. store (DownloadAndWait e d fs url []) (filepath_Join [downloadDir d url, ''meta.json''])
          = Some (File (Document (marshal_meta ''cached.file'' sz url (clock e))) (clock e))"
    by (auto simp: st dir Join_dir)
qed


lemma first_call_200:
  "fetches (DownloadAndWait env_200 cache0 Map.empty ''u'' []) \<noteq> []"
  "ret (DownloadAndWait env_200 cache0 Map.empty ''u'' []) = Returned None"
proof -
  have n: "\<not> os_Stat Map.empty (filepath_Join [downloadDir cache0 ''u'', ''meta.json''])"
    by (simp add: os_Stat_def)
  have w: "\<not> workers cache0 (HashString ''u'')"
    by (simp add: cache0_def NewDownloadCache_def)
  show "fetches (DownloadAndWait env_200 cache0 Map.empty ''u'' []) \<noteq> []"
    by (simp add: DownloadAndWait_Lead [OF n w] Let_def download_sent split: option.split)
  have "waiting (cache (download env_200 (cache0\<lparr>workers := (workers cache0)(HashString ''u'' := True)\<rparr>)
                   Map.empty ''u'' ''cached.file'')) (HashString ''u'') = []"
    by (simp add: waiting_def download_keeps cache0_def NewDownloadCache_def)
  then show "ret (DownloadAndWait env_200 cache0 Map.empty ''u'' []) = Returned None"
    by (simp add: DownloadAndWait_Lead [OF n w] Let_def download_env_200 unsafeNotifyWaiters_def)
qed

theorem empty_filename_becomes_cached_file_witness:
  "fetches (DownloadAndWait env_200 cache0 Map.empty ''u'' []) \<noteq> [] \<and>
   ret (DownloadAndWait env_200 cache0 Map.empty ''u'' []) = Returned None \<and>
   (\<exists>sz. store (DownloadAndWait env_200 cache0 Map.empty ''u'' [])
            (filepath_Join [downloadDir cache0 ''u'', ''meta.json''])
          = Some (File (Document (marshal_meta ''cached.file'' sz ''u'' (clock env_200)))
                   (clock env_200)))"
  using empty_filename_becomes_cached_file [of env_200 cache0 Map.empty "''u''"] first_call_200
  by blast

subsection \<open>The existence checks\<close>

text \<open>
  C4, as the claim states it, fails for \<^verbatim>\<open>IsCached\<close>: it stats the entry directory, not
  the metadata. In the store \<open>fs_empty_entry\<close> the entry directory of \<^verbatim>\<open>u\<close> exists and
  holds no \<^verbatim>\<open>meta.json\<close>; \<^verbatim>\<open>IsCached\<close> is true there, while the check of
  \<^verbatim>\<open>DownloadAndWait\<close> (line 248) finds the key not cached. It fails for that check, too,
  where the record is not valid: in \<open>fs_broken_entry\<close> the file \<^verbatim>\<open>meta.json\<close> holds bytes
  that \<^verbatim>\<open>ServeFile\<close> cannot decode, and the key is reported as cached.
\<close>

theorem IsCached_trusts_the_directory:
  "IsCached cache0 fs_empty_entry ''u'' \<and>
   fs_empty_entry (filepath_Join [downloadDir cache0 ''u'', ''meta.json'']) = None \<and>
   fst (admit cache0 fs_empty_entry ''u'' ''f'') \<noteq> Hit \<and>
   fst (admit cache0 fs_broken_entry ''u'' ''f'') = Hit \<and>
   fst (ServeFile env_200 cache0 fs_broken_entry ''u'')
     = ServerError ''invalid character looking for beginning of value''"
proof -
  have "fst (ServeFile env_200 cache0 fs_broken_entry ''u'')
     = ServerError ''invalid character looking for beginning of value''"
    by (simp add: ServeFile_def Let_def ioutil_ReadFile_def fs_broken_entry_def)
  moreover have "fst (admit cache0 fs_broken_entry ''u'' ''f'') = Hit"
    by (simp add: admit_Hit_iff os_Stat_def fs_broken_entry_def)
  ultimately show ?thesis
    by (simp add: IsCached_def os_Stat_def fs_empty_entry_def Join_dir admit_Hit_iff)
qed

text \<open>
  C4, amended. The check that the engine makes (\<^verbatim>\<open>DownloadAndWait\<close>, line 248) reports
  a key as cached exactly when a file \<^verbatim>\<open>meta.json\<close> is in its entry directory, whatever
  the file holds; the call then returns \<^verbatim>\<open>nil\<close> at once and changes nothing. In
  particular an entry directory that exists and holds no metadata file is not reported
  as cached by that check.
\<close>

theorem fast_path_trusts_the_metadata_file:
  "(fst (admit d fs url filename) = Hit)
     = (fs (filepath_Join [downloadDir d url, ''meta.json'']) \<noteq> None) \<and>
   (fs (filepath_Join [downloadDir d url, ''meta.json'']) \<noteq> None \<longrightarrow>
      DownloadAndWait e d fs url filename =
        \<lparr>ret = Returned None, engine = d, store = fs, fetches = [], notified = []\<rparr>) \<and>
   (fs (downloadDir d url) = Some Directory \<longrightarrow>
    fs (filepath_Join [downloadDir d url, ''meta.json'']) = None \<longrightarrow>
      fst (admit d fs url filename) \<noteq> Hit \<and>
      DownloadAndWait e d fs url filename \<noteq>
        \<lparr>ret = Returned None, engine = d, store = fs, fetches = [], notified = []\<rparr>)"
proof (intro conjI impI)
  show "(fst (admit d fs url filename) = Hit)
     = (fs (filepath_Join [downloadDir d url, ''meta.json'']) \<noteq> None)"
    by (simp add: admit_Hit_iff os_Stat_def)
  show "DownloadAndWait e d fs url filename =
        \<lparr>ret = Returned None, engine = d, store = fs, fetches = [], notified = []\<rparr>"
    if "fs (filepath_Join [downloadDir d url, ''meta.json'']) \<noteq> None"
    using that by (simp add: DownloadAndWait_Hit os_Stat_def)
  assume none: "fs (filepath_Join [downloadDir d url, ''meta.json'']) = None"
  then show "fst (admit d fs url filename) \<noteq> Hit"
    by (simp add: admit_Hit_iff os_Stat_def)
  from none have n: "\<not> os_Stat fs (filepath_Join [downloadDir d url, ''meta.json''])"
    by (simp add: os_Stat_def)
  show "DownloadAndWait e d fs url filename \<noteq>
        \<lparr>ret = Returned None, engine = d, store = fs, fetches = [], notified = []\<rparr>"
  proof (cases "workers d (HashString url)")
    case True
    then show ?thesis by (simp add: DownloadAndWait_Join [OF n])
  next
    case False
    have "fetches (DownloadAndWait e d fs url filename) \<noteq> []"
      by (simp add: DownloadAndWait_Lead [OF n False] Let_def download_sent split: option.split)
    then show ?thesis by auto
  qed
qed

theorem fast_path_trusts_the_metadata_file_witness:
  "fs_empty_entry (downloadDir cache0 ''u'') = Some Directory \<and>
   fs_empty_entry (filepath_Join [downloadDir cache0 ''u'', ''meta.json'']) = None \<and>
   fst (admit cache0 fs_empty_entry ''u'' ''f'') \<noteq> Hit \<and>
   (fs_empty_entry(filepath_Join [downloadDir cache0 ''u'', ''meta.json''] \<mapsto> File (Bytes ''{'') 0))
      (filepath_Join [downloadDir cache0 ''u'', ''meta.json'']) \<noteq> None \<and>
   DownloadAndWait env_404 cache0
      (fs_empty_entry(filepath_Join [downloadDir cache0 ''u'', ''meta.json''] \<mapsto> File (Bytes ''{'') 0))
      ''u'' ''f'' =
     \<lparr>ret = Returned None, engine = cache0,
      store = fs_empty_entry(filepath_Join [downloadDir cache0 ''u'', ''meta.json''] \<mapsto> File (Bytes ''{'') 0),
      fetches = [], notified = []\<rparr>"
proof -
  have a: "fs_empty_entry (downloadDir cache0 ''u'') = Some Directory"
    by (simp add: fs_empty_entry_def)
  have b: "fs_empty_entry (filepath_Join [downloadDir cache0 ''u'', ''meta.json'']) = None"
    by (simp add: fs_empty_entry_def Join_dir)
  have c: "(fs_empty_entry(filepath_Join [downloadDir cache0 ''u'', ''meta.json''] \<mapsto> File (Bytes ''{'') 0))
      (filepath_Join [downloadDir cache0 ''u'', ''meta.json'']) \<noteq> None"
    by simp
  from fast_path_trusts_the_metadata_file [of cache0 fs_empty_entry "''u''" "''f''" env_404] a b
  have d: "fst (admit cache0 fs_empty_entry ''u'' ''f'') \<noteq> Hit"
    by blast
  from fast_path_trusts_the_metadata_file [of cache0
      "fs_empty_entry(filepath_Join [downloadDir cache0 ''u'', ''meta.json''] \<mapsto> File (Bytes ''{'') 0)"
      "''u''" "''f''" env_404] c
  have "DownloadAndWait env_404 cache0
      (fs_empty_entry(filepath_Join [downloadDir cache0 ''u'', ''meta.json''] \<mapsto> File (Bytes ''{'') 0))
      ''u'' ''f'' =
     \<lparr>ret = Returned None, engine = cache0,
      store = fs_empty_entry(filepath_Join [downloadDir cache0 ''u'', ''meta.json''] \<mapsto> File (Bytes ''{'') 0),
      fetches = [], notified = []\<rparr>"
    by blast
  with a b c d show ?thesis by blast
qed


subsection \<open>Waiters\<close>

lemma send_each_ready:
  assumes "distinct ws"
    and "\<forall>c\<in>set ws. c < length cs \<and> cap (cs ! c) = 1 \<and> buf (cs ! c) = []"
  shows "\<exists>cs'. send_each cs ws v = Some (cs', map (\<lambda>c. (c, v)) ws) \<and>
           length cs' = length cs \<and>
           (\<forall>c<length cs. cs' ! c = (if c \<in> set ws then (cs ! c)\<lparr>buf := [v]\<rparr> else cs ! c))"
  using assms
proof (induction ws arbitrary: cs)
  case Nil
  then show ?case by simp
next
  case (Cons w ws)
  let ?cs1 = "cs[w := (cs ! w)\<lparr>buf := [v]\<rparr>]"
  from Cons.prems have w: "w < length cs" "cap (cs ! w) = 1" "buf (cs ! w) = []" "w \<notin> set ws"
    by auto
  then have send: "chan_send cs w v = Some ?cs1"
    by (simp add: chan_send_def)
  have "\<forall>c\<in>set ws. c < length ?cs1 \<and> cap (?cs1 ! c) = 1 \<and> buf (?cs1 ! c) = []"
    using Cons.prems w by (auto simp: nth_list_update)
  moreover have "distinct ws" using Cons.prems by simp
  ultimately obtain cs' where rest: "send_each ?cs1 ws v = Some (cs', map (\<lambda>c. (c, v)) ws)"
    "length cs' = length ?cs1"
    "\<forall>c<length ?cs1. cs' ! c = (if c \<in> set ws then (?cs1 ! c)\<lparr>buf := [v]\<rparr> else ?cs1 ! c)"
    using Cons.IH [of ?cs1] by blast
  have "send_each cs (w # ws) v = Some (cs', map (\<lambda>c. (c, v)) (w # ws))"
    using send rest(1) by simp
  moreover have "length cs' = length cs" using rest(2) by simp
  moreover have "\<forall>c<length cs. cs' ! c = (if c \<in> set (w # ws) then (cs ! c)\<lparr>buf := [v]\<rparr> else cs ! c)"
    using rest(3) w by (auto simp: nth_list_update)
  ultimately show ?case by blast
qed

lemma waiters_readyD:
  assumes "waiters_ready d"
  shows "distinct (waiting d h)"
    and "c \<in> set (waiting d h) \<Longrightarrow> registered d c"
    and "h \<noteq> h' \<Longrightarrow> c \<in> set (waiting d h) \<Longrightarrow> c \<notin> set (waiting d h')"
proof -
  from assms show "distinct (waiting d h)"
    by (simp add: waiters_ready_def)
  from assms show "c \<in> set (waiting d h) \<Longrightarrow> registered d c"
    by (simp add: waiters_ready_def list_all_iff)
  from assms have "h \<noteq> h' \<Longrightarrow> set (waiting d h) \<inter> set (waiting d h') = {}"
    by (simp add: waiters_ready_def)
  then show "h \<noteq> h' \<Longrightarrow> c \<in> set (waiting d h) \<Longrightarrow> c \<notin> set (waiting d h')"
    by blast
qed

lemma waiters_ready_New: "waiters_ready (NewDownloadCache dir)"
  by (simp add: waiters_ready_def NewDownloadCache_def waiting_def)

lemma notify_ready:
  assumes "waiters_ready d"
  shows "\<exists>d'. unsafeNotifyWaiters d hash v = Some (d', map (\<lambda>ch. (ch, v)) (waiting d hash)) \<and>
           waiters d' = (waiters d)(hash := None) \<and>
           length (chans d') = length (chans d) \<and>
           (\<forall>c<length (chans d). chans d' ! c =
              (if c \<in> set (waiting d hash) then (chans d ! c)\<lparr>buf := [v]\<rparr> else chans d ! c)) \<and>
           CacheDir d' = CacheDir d \<and> GetProxy d' = GetProxy d \<and> workers d' = workers d \<and>
           dashboard d' = dashboard d"
proof -
  have "\<forall>c\<in>set (waiting d hash). c < length (chans d) \<and> cap (chans d ! c) = 1 \<and> buf (chans d ! c) = []"
    using waiters_readyD(2) [OF assms] by (auto simp: registered_def)
  from send_each_ready [OF waiters_readyD(1) [OF assms] this, of v]
  obtain cs' where "send_each (chans d) (waiting d hash) v = Some (cs', map (\<lambda>c. (c, v)) (waiting d hash))"
    "length cs' = length (chans d)"
    "\<forall>c<length (chans d). cs' ! c = (if c \<in> set (waiting d hash) then (chans d ! c)\<lparr>buf := [v]\<rparr> else chans d ! c)"
    by blast
  then show ?thesis
    by (simp add: unsafeNotifyWaiters_def)
qed

lemma notify_keeps_ready:
  assumes r: "waiters_ready d" and n: "unsafeNotifyWaiters d hash v = Some (d', sends)"
  shows "waiters_ready d'"
proof -
  from notify_ready [OF r, of hash v] n
  have w: "waiters d' = (waiters d)(hash := None)"
    and l: "length (chans d') = length (chans d)"
    and c: "\<forall>c<length (chans d). chans d' ! c =
              (if c \<in> set (waiting d hash) then (chans d ! c)\<lparr>buf := [v]\<rparr> else chans d ! c)"
    by auto
  have wt: "waiting d' h = (if h = hash then [] else waiting d h)" for h
    by (simp add: waiting_def w)
  have reg: "registered d' ch" if "ch \<in> set (waiting d h)" "h \<noteq> hash" for ch h
  proof -
    from that have "ch \<notin> set (waiting d hash)"
      using waiters_readyD(3) [OF r] by blast
    moreover from that have "registered d ch"
      using waiters_readyD(2) [OF r] by blast
    ultimately show ?thesis
      using c l by (simp add: registered_def)
  qed
  show ?thesis
    unfolding waiters_ready_def
  proof (intro conjI allI impI)
    show "distinct (waiting d' h)" for h
      using waiters_readyD(1) [OF r] by (simp add: wt)
    show "list_all (registered d') (waiting d' h)" for h
      using reg by (auto simp: wt list_all_iff)
    have dis: "set (waiting d a) \<inter> set (waiting d b) = {}" if "a \<noteq> b" for a b
      using r that by (simp add: waiters_ready_def)
    show "set (waiting d' h) \<inter> set (waiting d' h') = {}" if "h \<noteq> h'" for h h'
      using dis [OF that] by (simp add: wt)
  qed
qed

lemma add_keeps_ready:
  assumes r: "waiters_ready d"
  shows "waiters_ready (fst (unsafeAddWaiter d hash))"
proof -
  let ?d = "fst (unsafeAddWaiter d hash)"
  have wt: "waiting ?d h = (if h = hash then waiting d hash @ [length (chans d)] else waiting d h)" for h
    by (simp add: unsafeAddWaiter_fresh)
  have ch: "chans ?d = chans d @ [\<lparr>cap = 1, buf = []\<rparr>]"
    by (simp add: unsafeAddWaiter_fresh)
  have old: "registered ?d c" "c \<noteq> length (chans d)" if "c \<in> set (waiting d h)" for c h
  proof -
    from that have "registered d c" using waiters_readyD(2) [OF r] by blast
    then show "registered ?d c" "c \<noteq> length (chans d)"
      by (auto simp: registered_def ch nth_append)
  qed
  have new: "registered ?d (length (chans d))"
    by (simp add: registered_def ch)
  show ?thesis
    unfolding waiters_ready_def
  proof (intro conjI allI impI)
    show "distinct (waiting ?d h)" for h
      using waiters_readyD(1) [OF r] old(2) by (auto simp: wt)
    show "list_all (registered ?d) (waiting ?d h)" for h
      using old(1) new by (auto simp: wt list_all_iff)
    have dis: "set (waiting d a) \<inter> set (waiting d b) = {}" if "a \<noteq> b" for a b
      using r that by (simp add: waiters_ready_def)
    have fresh: "length (chans d) \<notin> set (waiting d a)" for a
      using old(2) by blast
    show "set (waiting ?d h) \<inter> set (waiting ?d h') = {}" if "h \<noteq> h'" for h h'
      using dis [OF that] fresh [of h] fresh [of h'] that by (auto simp: wt)
  qed
qed

lemma waiters_ready_cong:
  "waiters d' = waiters d \<Longrightarrow> chans d' = chans d \<Longrightarrow> waiters_ready d' = waiters_ready d"
proof -
  assume a: "waiters d' = waiters d" "chans d' = chans d"
  then have "waiting d' = waiting d" "registered d' = registered d"
    by (auto simp: waiting_def registered_def fun_eq_iff)
  then show ?thesis
    by (simp add: waiters_ready_def)
qed

lemma recv_keeps_ready:
  assumes r: "waiters_ready d" and rc: "chan_recv (chans d) c = Some (v, cs)"
  shows "waiters_ready (d\<lparr>chans := cs\<rparr>)"
proof -
  from rc obtain vs where c: "c < length (chans d)" "buf (chans d ! c) = v # vs"
    "cs = (chans d)[c := (chans d ! c)\<lparr>buf := vs\<rparr>]"
    by (auto simp: chan_recv_def split: if_splits list.splits)
  have wt: "waiting (d\<lparr>chans := cs\<rparr>) h = waiting d h" for h
    by (simp add: waiting_def)
  have "registered (d\<lparr>chans := cs\<rparr>) ch" if "registered d ch" for ch
  proof -
    from that c have "ch \<noteq> c" by (auto simp: registered_def)
    with that c show ?thesis by (simp add: registered_def)
  qed
  then show ?thesis
    using r by (auto simp: waiters_ready_def wt list_all_iff)
qed

lemma DownloadAndWait_ready:
  assumes r: "waiters_ready d"
  shows "ret (DownloadAndWait e d fs url filename) \<noteq> Sending"
    and "waiters_ready (engine (DownloadAndWait e d fs url filename))"
proof -
  have "ret (DownloadAndWait e d fs url filename) \<noteq> Sending \<and>
        waiters_ready (engine (DownloadAndWait e d fs url filename))"
  proof (cases rule: admit_cases [of d fs url filename])
    case Hit
    then show ?thesis using r by (simp add: DownloadAndWait_Hit)
  next
    case Join
    then show ?thesis using add_keeps_ready [OF r] by (simp add: DownloadAndWait_Join)
  next
    case Lead
    let ?r = "download e (d\<lparr>workers := (workers d)(HashString url := True)\<rparr>) fs url
                (if filename = [] then ''cached.file'' else filename)"
    have "waiters_ready (cache ?r) = waiters_ready d"
      by (rule waiters_ready_cong) (simp_all add: download_keeps)
    with r have rr: "waiters_ready (cache ?r)" by simp
    from notify_ready [OF rr, of "HashString url" "err ?r"]
    obtain d' where n: "unsafeNotifyWaiters (cache ?r) (HashString url) (err ?r)
        = Some (d', map (\<lambda>ch. (ch, err ?r)) (waiting (cache ?r) (HashString url)))"
      by blast
    from notify_keeps_ready [OF rr n] have "waiters_ready d'" .
    then show ?thesis
      using n by (simp add: DownloadAndWait_Lead [OF Lead(2,3)] Let_def)
  qed
  then show "ret (DownloadAndWait e d fs url filename) \<noteq> Sending"
    and "waiters_ready (engine (DownloadAndWait e d fs url filename))"
    by simp_all
qed

text \<open>
  C5. In a state with well-formed waiter lists, \<^verbatim>\<open>unsafeNotifyWaiters\<close> sends the one
  outcome to every waiter of the key, in the order of the list; no send blocks, because
  each waiter's channel has one slot and nothing in it; afterwards each of these
  channels buffers exactly the outcome and the key has no waiter list. The order of the
  list is the order of registration: \<^verbatim>\<open>unsafeAddWaiter\<close> makes a new channel with one
  empty slot and puts it at the end. Both keep the lists well-formed, and so does a
  whole call of \<^verbatim>\<open>DownloadAndWait\<close>, which therefore never blocks while it notifies.
\<close>

theorem waiters_served_in_order_without_blocking:
  assumes "waiters_ready d"
  shows "(\<exists>d'. unsafeNotifyWaiters d hash v = Some (d', map (\<lambda>ch. (ch, v)) (waiting d hash)) \<and>
            waiters d' hash = None \<and>
            list_all (\<lambda>ch. buf (chans d' ! ch) = [v]) (waiting d hash) \<and>
            waiters_ready d') \<and>
         waiting (fst (unsafeAddWaiter d hash)) hash = waiting d hash @ [snd (unsafeAddWaiter d hash)] \<and>
         chans (fst (unsafeAddWaiter d hash)) ! snd (unsafeAddWaiter d hash) = \<lparr>cap = 1, buf = []\<rparr> \<and>
         waiters_ready (fst (unsafeAddWaiter d hash)) \<and>
         ret (DownloadAndWait e d fs url filename) \<noteq> Sending \<and>
         waiters_ready (engine (DownloadAndWait e d fs url filename))"
proof -
  from notify_ready [OF assms, of hash v]
  obtain d' where n: "unsafeNotifyWaiters d hash v = Some (d', map (\<lambda>ch. (ch, v)) (waiting d hash))"
    and w: "waiters d' = (waiters d)(hash := None)"
    and c: "\<forall>c<length (chans d). chans d' ! c =
              (if c \<in> set (waiting d hash) then (chans d ! c)\<lparr>buf := [v]\<rparr> else chans d ! c)"
    by blast
  have "list_all (\<lambda>ch. buf (chans d' ! ch) = [v]) (waiting d hash)"
    using c waiters_readyD(2) [OF assms, of _ hash] by (auto simp: list_all_iff registered_def)
  with n w notify_keeps_ready [OF assms n]
  have "\<exists>d'. unsafeNotifyWaiters d hash v = Some (d', map (\<lambda>ch. (ch, v)) (waiting d hash)) \<and>
            waiters d' hash = None \<and>
            list_all (\<lambda>ch. buf (chans d' ! ch) = [v]) (waiting d hash) \<and>
            waiters_ready d'"
    by auto
  then show ?thesis
    using add_keeps_ready [OF assms, of hash] DownloadAndWait_ready [OF assms, of e fs url filename]
    by (simp add: unsafeAddWaiter_fresh)
qed

lemma two_waiters:
  "waiters_ready (fst (unsafeAddWaiter (fst (unsafeAddWaiter cache0 ''k'')) ''k''))"
  "waiting (fst (unsafeAddWaiter (fst (unsafeAddWaiter cache0 ''k'')) ''k'')) ''k'' = [0, 1]"
proof -
  show "waiters_ready (fst (unsafeAddWaiter (fst (unsafeAddWaiter cache0 ''k'')) ''k''))"
    by (intro add_keeps_ready) (simp add: cache0_def waiters_ready_New)
  show "waiting (fst (unsafeAddWaiter (fst (unsafeAddWaiter cache0 ''k'')) ''k'')) ''k'' = [0, 1]"
    by (simp add: unsafeAddWaiter_fresh) (simp add: cache0_def NewDownloadCache_def waiting_def)
qed

theorem waiters_served_in_order_without_blocking_witness:
  "waiters_ready (fst (unsafeAddWaiter (fst (unsafeAddWaiter cache0 ''k'')) ''k'')) \<and>
   (\<exists>d'. unsafeNotifyWaiters (fst (unsafeAddWaiter (fst (unsafeAddWaiter cache0 ''k'')) ''k'')) ''k''
            (Some ''remote: 404 Not Found'')
          = Some (d', [(0, Some ''remote: 404 Not Found''), (1, Some ''remote: 404 Not Found'')]) \<and>
        waiters d' ''k'' = None \<and>
        buf (chans d' ! 0) = [Some ''remote: 404 Not Found''] \<and>
        buf (chans d' ! 1) = [Some ''remote: 404 Not Found''])"
  using waiters_served_in_order_without_blocking [OF two_waiters(1),
      where hash = "''k''" and v = "Some ''remote: 404 Not Found''" and e = env_200
        and fs = Map.empty and url = "''u''" and filename = "''f''"]
    two_waiters(1)
  by (auto simp: two_waiters(2))


subsection \<open>Metadata written and read back\<close>

lemma coerce_valid: "ValidString s \<Longrightarrow> coerce_utf8 s = s"
proof (induction s rule: ValidString.induct)
  case 1
  show ?case by simp
next
  case (2 c cs)
  from "2.prems" obtain n where n: "DecodeRuneSize (c # cs) = Some n"
    and v: "ValidString (drop (n - 1) cs)"
    by (auto split: option.splits)
  from "2.IH" [OF n v] have "coerce_utf8 (drop (n - 1) cs) = drop (n - 1) cs" .
  with n show ?case by simp
qed

lemma set_field_keys:
  "set_field info (''filename'', JString s) = Inr (info\<lparr>Filename := s\<rparr>)"
  "set_field info (''url'', JString s) = Inr (info\<lparr>URL := s\<rparr>)"
  "set_field info (''size'', JNumber (sint (w :: 64 word))) = Inr (info\<lparr>Size := w\<rparr>)"
  "set_field info (''time'', JNumber (sint (w :: 64 word))) = Inr (info\<lparr>Time := w\<rparr>)"
  by (simp_all add: set_field_def lower_def Let_def set_string_def set_int64_def sint_roundtrip)

lemma unmarshal_marshal:
  "unmarshal_info (marshal_meta filename sz url t) =
     Inr \<lparr>Filename = coerce_utf8 filename, Size = sz, URL = coerce_utf8 url, Time = t\<rparr>"
  by (simp add: unmarshal_info_def marshal_meta_def set_field_keys zero_info_def)

lemma ServeFile_after_download:
  assumes ok: "err (download e d fs url filename) = None"
    and res: "origin e (request d url) = Inr res"
  shows "fst (ServeFile e' (cache (download e d fs url filename))
                (files (download e d fs url filename)) url) =
           Content \<lparr>Filename = coerce_utf8 filename, Size = of_nat (length (Body res)),
                    URL = coerce_utf8 url, Time = clock e\<rparr> (Bytes (Body res))"
proof -
  let ?r = "download e d fs url filename"
  have dir: "downloadDir (cache ?r) url = downloadDir d url"
    by (rule downloadDir_cong) (simp add: download_keeps)
  note f = download_success_files(1,2) [OF ok res]
  have rd: "ioutil_ReadFile (files ?r) (downloadDir d url @ ''/meta.json'') =
      Inr (Document (marshal_meta filename (of_nat (length (Body res))) url (clock e)))"
    by (simp add: ioutil_ReadFile_def f)
  have op: "os_Open (os_Chtimes (files ?r) (downloadDir d url @ ''/meta.json'') (clock e'))
             (downloadDir d url @ ''/cached.file'') = Inr (Bytes (Body res))"
    by (simp add: os_Open_def os_Chtimes_def f)
  show ?thesis
    by (simp add: ServeFile_def Let_def dir Join_dir rd unmarshal_marshal op)
qed

lemma coerce_FF: "coerce_utf8 [CHR 0xFF] = [CHR 0xEF, CHR 0xBF, CHR 0xBD]"
  by (simp add: DecodeRuneSize_def)

lemma valid_samples: "ValidString ''a.txt''" "ValidString ''https://x/a.txt''"
  by (simp_all add: DecodeRuneSize_def)

text \<open>
  C8, as the claim states it, fails for a file name that is not valid UTF-8. A Go string
  holds any bytes (the handler takes the name from the unescaped request path, so
  \<^verbatim>\<open>%FF\<close> in the path gives the byte FF). \<^verbatim>\<open>json.Marshal\<close> writes U+FFFD for the byte,
  and \<^verbatim>\<open>ServeFile\<close> reads back the three bytes EF BF BD.
\<close>

theorem metadata_round_trip_loses_invalid_utf8:
  "err (download env_200 cache0 Map.empty ''u'' [CHR 0xFF]) = None \<and>
   fst (ServeFile env_200 (cache (download env_200 cache0 Map.empty ''u'' [CHR 0xFF]))
          (files (download env_200 cache0 Map.empty ''u'' [CHR 0xFF])) ''u'') =
     Content \<lparr>Filename = [CHR 0xEF, CHR 0xBF, CHR 0xBD], Size = 5, URL = ''u'', Time = 1000\<rparr>
       (Bytes ''hello'') \<and>
   [CHR 0xEF, CHR 0xBF, CHR 0xBD] \<noteq> [CHR 0xFF]"
proof -
  have res: "origin env_200 (request cache0 ''u'') =
      Inr \<lparr>StatusCode = 200, Status = ''200 OK'', ContentLength = Some 5, Body = ''hello'',
           BodyError = None\<rparr>"
    by (simp add: env_200_def origin_200_def)
  have u: "coerce_utf8 ''u'' = ''u''"
    by (simp add: DecodeRuneSize_def)
  have clk: "clock env_200 = 1000"
    by (simp add: env_200_def)
  have sv: "fst (ServeFile env_200 (cache (download env_200 cache0 Map.empty ''u'' [CHR 0xFF]))
          (files (download env_200 cache0 Map.empty ''u'' [CHR 0xFF])) ''u'') =
     Content \<lparr>Filename = coerce_utf8 [CHR 0xFF],
              Size = of_nat (length (Body \<lparr>StatusCode = 200, Status = ''200 OK'',
                        ContentLength = Some 5, Body = ''hello'', BodyError = None\<rparr>)),
              URL = coerce_utf8 ''u'', Time = clock env_200\<rparr>
       (Bytes (Body \<lparr>StatusCode = 200, Status = ''200 OK'',
                        ContentLength = Some 5, Body = ''hello'', BodyError = None\<rparr>))"
    using download_env_200 res by (rule ServeFile_after_download)
  have "fst (ServeFile env_200 (cache (download env_200 cache0 Map.empty ''u'' [CHR 0xFF]))
          (files (download env_200 cache0 Map.empty ''u'' [CHR 0xFF])) ''u'') =
     Content \<lparr>Filename = [CHR 0xEF, CHR 0xBF, CHR 0xBD], Size = 5, URL = ''u'', Time = 1000\<rparr>
       (Bytes ''hello'')"
    unfolding sv coerce_FF u clk by simp
  moreover have "[CHR 0xEF, CHR 0xBF, CHR 0xBD] \<noteq> [CHR 0xFF]"
    by simp
  ultimately show ?thesis
    using download_env_200 [of cache0 Map.empty "''u''" "[CHR 0xFF]"] by blast
qed

text \<open>
  C8, amended. For a file name and a URL that are valid UTF-8, the metadata that the
  commit path writes and the record that \<^verbatim>\<open>ServeFile\<close> decodes from it have the same four
  field values: decoding the marshalled \<^verbatim>\<open>{filename, size, url, time}\<close> gives these
  values back, and after a successful download \<^verbatim>\<open>ServeFile\<close> decodes the file name, the
  number of bytes copied, the URL and the time of the download.
\<close>

theorem metadata_round_trip_valid_utf8:
  assumes "ValidString filename" and "ValidString url"
  shows "unmarshal_info (marshal_meta filename sz url t)
           = Inr \<lparr>Filename = filename, Size = sz, URL = url, Time = t\<rparr> \<and>
         (err (download e d fs url filename) = None \<longrightarrow>
            (\<exists>res. origin e (request d url) = Inr res \<and>
               fst (ServeFile e' (cache (download e d fs url filename))
                      (files (download e d fs url filename)) url) =
                 Content \<lparr>Filename = filename, Size = of_nat (length (Body res)), URL = url,
                          Time = clock e\<rparr> (Bytes (Body res))))"
proof (intro conjI impI)
  show "unmarshal_info (marshal_meta filename sz url t)
           = Inr \<lparr>Filename = filename, Size = sz, URL = url, Time = t\<rparr>"
    using assms by (simp add: unmarshal_marshal coerce_valid)
  assume ok: "err (download e d fs url filename) = None"
  from download_success [OF ok] obtain res where res: "origin e (request d url) = Inr res"
    by blast
  from ServeFile_after_download [OF ok res, of e'] assms res
  show "\<exists>res. origin e (request d url) = Inr res \<and>
               fst (ServeFile e' (cache (download e d fs url filename))
                      (files (download e d fs url filename)) url) =
                 Content \<lparr>Filename = filename, Size = of_nat (length (Body res)), URL = url,
                          Time = clock e\<rparr> (Bytes (Body res))"
    by (simp add: coerce_valid)
qed

theorem metadata_round_trip_valid_utf8_witness:
  "ValidString ''a.txt'' \<and> ValidString ''https://x/a.txt'' \<and>
   unmarshal_info (marshal_meta ''a.txt'' 1234 ''https://x/a.txt'' 1000)
     = Inr \<lparr>Filename = ''a.txt'', Size = 1234, URL = ''https://x/a.txt'', Time = 1000\<rparr> \<and>
   err (download env_200 cache0 Map.empty ''https://x/a.txt'' ''a.txt'') = None \<and>
   (\<exists>res. origin env_200 (request cache0 ''https://x/a.txt'') = Inr res \<and>
      fst (ServeFile env_200 (cache (download env_200 cache0 Map.empty ''https://x/a.txt'' ''a.txt''))
             (files (download env_200 cache0 Map.empty ''https://x/a.txt'' ''a.txt''))
             ''https://x/a.txt'') =
        Content \<lparr>Filename = ''a.txt'', Size = of_nat (length (Body res)), URL = ''https://x/a.txt'',
                 Time = clock env_200\<rparr> (Bytes (Body res)))"
  using metadata_round_trip_valid_utf8 [OF valid_samples, of 1234 1000 env_200 cache0 Map.empty env_200]
    valid_samples download_env_200 [of cache0 Map.empty "''https://x/a.txt''" "''a.txt''"]
  by blast


subsection \<open>The sweep\<close>




lemma sweep_sample:
  "Clean sweep0 store_without_failure =
     (Some (DirInfo 0 True
        [(''ff'', DirInfo 0 True
           [(''aa'', DirInfo 95 True [(''cached.file'', FileInfo 95), (''meta.json'', FileInfo 95)])])]),
      [Cleaned ''data/ff/bb/meta.json'' 100])"
  by (simp add: Clean_def sweep0_def store_without_failure_def filepath_Base_def visit_def
      time_Since_def)





subsection \<open>Callers within the window of one fetch\<close>

lemma admit_in_flight:
  assumes "workers d (HashString url)"
  shows "admit d fs url filename =
     (if os_Stat fs (filepath_Join [downloadDir d url, ''meta.json'']) then (Hit, d)
      else (Join (length (chans d)), fst (unsafeAddWaiter d (HashString url))))"
  using assms by (cases rule: admit_cases [of d fs url filename]) simp_all

lemma unsafeAddWaiter_keeps:
  "GetProxy (fst (unsafeAddWaiter d hash)) = GetProxy d"
  "dashboard (fst (unsafeAddWaiter d hash)) = dashboard d"
  by (simp_all add: unsafeAddWaiter_def Let_def)

lemma arrivals_in_flight:
  assumes "arrivals d url seen = (d2, as)"
    and "workers d (HashString url)" and "waiters_ready d"
  shows "waiters_ready d2 \<and> workers d2 = workers d \<and> CacheDir d2 = CacheDir d \<and>
         waiting d2 (HashString url) = waiting d (HashString url) @ joined as \<and>
         list_all hit_or_join as \<and>
         map (\<lambda>a. a = Hit) as
           = map (\<lambda>s. os_Stat (fst s) (filepath_Join [downloadDir d url, ''meta.json''])) seen"
  using assms
proof (induction seen arbitrary: d d2 as)
  case Nil
  then show ?case by simp
next
  case (Cons s later)
  let ?meta = "filepath_Join [downloadDir d url, ''meta.json'']"
  show ?case
  proof (cases "os_Stat (fst s) ?meta")
    case True
    then have a: "admit d (fst s) url (snd s) = (Hit, d)"
      using Cons.prems(2) by (simp add: admit_in_flight)
    obtain d' as' where r: "arrivals d url later = (d', as')"
      by (cases "arrivals d url later")
    from Cons.prems(1) a r have eq: "d2 = d'" "as = Hit # as'"
      by auto
    from Cons.IH [OF r Cons.prems(2,3)] True show ?thesis
      by (simp add: eq hit_or_join_def)
  next
    case False
    let ?d = "fst (unsafeAddWaiter d (HashString url))"
    from False have a: "admit d (fst s) url (snd s) = (Join (length (chans d)), ?d)"
      using Cons.prems(2) by (simp add: admit_in_flight)
    obtain d' as' where r: "arrivals ?d url later = (d', as')"
      by (cases "arrivals ?d url later")
    from Cons.prems(1) a r have eq: "d2 = d'" "as = Join (length (chans d)) # as'"
      by auto
    have w: "workers ?d (HashString url)"
      using Cons.prems(2) by (simp add: unsafeAddWaiter_fresh)
    have dir: "downloadDir ?d url = downloadDir d url"
      by (rule downloadDir_cong) (simp add: unsafeAddWaiter_fresh)
    from Cons.IH [OF r w add_keeps_ready [OF Cons.prems(3)]] False show ?thesis
      by (simp add: eq hit_or_join_def unsafeAddWaiter_fresh dir)
  qed
qed

lemma recv_notified:
  assumes "c < length cs" and "buf (cs ! c) = [v]"
  shows "\<exists>cs'. chan_recv cs c = Some (v, cs')"
  using assms by (simp add: chan_recv_def)

text \<open>
  C2, as the claim states it, fails for a caller that arrives while the metadata is
  being written. The first caller downloads; the disk is full when \<^verbatim>\<open>ioutil.WriteFile\<close>
  writes \<^verbatim>\<open>meta.json\<close>, so the file is there, empty, when the body of \<^verbatim>\<open>download\<close> returns
  its error, until the deferred closure removes the entry directory. A second caller
  that runs its critical section in between finds \<^verbatim>\<open>meta.json\<close> (line 248) and returns
  \<^verbatim>\<open>nil\<close>, while the first caller returns the error: one fetch, two outcomes.
\<close>

theorem late_caller_succeeds_while_the_fetch_fails:
  "admit cache0 Map.empty ''u'' ''f''
     = (Lead (HashString ''u'') ''f'', cache0\<lparr>workers := (workers cache0)(HashString ''u'' := True)\<rparr>) \<and>
   err (download env_disk_full (cache0\<lparr>workers := (workers cache0)(HashString ''u'' := True)\<rparr>)
          Map.empty ''u'' ''f'') = Some ''no space left on device'' \<and>
   arrivals (cache (download env_disk_full
                (cache0\<lparr>workers := (workers cache0)(HashString ''u'' := True)\<rparr>) Map.empty ''u'' ''f''))
       ''u''
       [(at_return (download env_disk_full
                (cache0\<lparr>workers := (workers cache0)(HashString ''u'' := True)\<rparr>) Map.empty ''u'' ''f''),
         ''f'')]
     = (cache (download env_disk_full
                (cache0\<lparr>workers := (workers cache0)(HashString ''u'' := True)\<rparr>) Map.empty ''u'' ''f''),
        [Hit]) \<and>
   ret (DownloadAndWait env_disk_full
          (cache (download env_disk_full
                (cache0\<lparr>workers := (workers cache0)(HashString ''u'' := True)\<rparr>) Map.empty ''u'' ''f''))
          (at_return (download env_disk_full
                (cache0\<lparr>workers := (workers cache0)(HashString ''u'' := True)\<rparr>) Map.empty ''u'' ''f''))
          ''u'' ''f'') = Returned None"
proof -
  let ?d1 = "cache0\<lparr>workers := (workers cache0)(HashString ''u'' := True)\<rparr>"
  let ?r = "download env_disk_full ?d1 Map.empty ''u'' ''f''"
  let ?meta = "filepath_Join [downloadDir cache0 ''u'', ''meta.json'']"
  have dir: "downloadDir ?d1 ''u'' = downloadDir cache0 ''u''"
    by (rule downloadDir_cong) simp
  have a: "admit cache0 Map.empty ''u'' ''f'' = (Lead (HashString ''u'') ''f'', ?d1)"
    by (cases rule: admit_cases [of cache0 Map.empty "''u''" "''f''"])
       (simp_all add: os_Stat_def cache0_def NewDownloadCache_def)
  have e: "err ?r = Some ''no space left on device''"
    by (simp add: download_def env_disk_full_def origin_200_def Let_def)
  have "at_return ?r ?meta \<noteq> None"
    by (simp add: download_def env_disk_full_def origin_200_def Let_def ioutil_WriteFile_def dir)
  then have seen: "os_Stat (at_return ?r) (filepath_Join [downloadDir (cache ?r) ''u'', ''meta.json''])"
    by (simp add: os_Stat_def downloadDir_cong [of "cache ?r" cache0] download_keeps)
  have h: "admit (cache ?r) (at_return ?r) ''u'' ''f'' = (Hit, cache ?r)"
    using seen by (cases rule: admit_cases [of "cache ?r" "at_return ?r" "''u''" "''f''"]) simp_all
  have "arrivals (cache ?r) ''u'' [(at_return ?r, ''f'')] = (cache ?r, [Hit])"
    by (simp add: h)
  moreover have "ret (DownloadAndWait env_disk_full (cache ?r) (at_return ?r) ''u'' ''f'') = Returned None"
    by (simp add: DownloadAndWait_Hit [OF seen])
  ultimately show ?thesis
    using a e by blast
qed

text \<open>
  C2, amended. Let a caller become the downloader for a key (\<open>Lead\<close>), and let any
  number of callers for the same URL arrive before it notifies, each seeing the file
  system of its moment. None of them downloads: each returns at once if it finds
  \<^verbatim>\<open>meta.json\<close> on disk and waits on a channel of its own otherwise, so the one request
  of the downloader is the only one sent. When the downloader notifies, the outcome of
  its download, success or the error, is sent to every waiter in the order of arrival,
  and each of the callers that waited receives exactly this outcome.
\<close>

theorem one_fetch_serves_the_callers_that_wait:
  assumes ready: "waiters_ready d"
    and lead: "admit d fs url filename = (Lead h f, d1)"
    and arr: "arrivals (cache (download e d1 fs url f)) url seen = (d2, as)"
  shows "list_all hit_or_join as \<and>
         map (\<lambda>a. a = Hit) as
           = map (\<lambda>s. os_Stat (fst s) (filepath_Join [downloadDir d url, ''meta.json''])) seen \<and>
         sent (download e d1 fs url f) = [request d url] \<and>
         (\<exists>d3. unsafeNotifyWaiters d2 h (err (download e d1 fs url f))
                  = Some (d3, map (\<lambda>ch. (ch, err (download e d1 fs url f)))
                                (waiting d h @ joined as)) \<and>
               list_all (\<lambda>ch. \<exists>cs. chan_recv (chans d3) ch
                                      = Some (err (download e d1 fs url f), cs)) (joined as))"
proof -
  let ?r = "download e d1 fs url f"
  note l = admit_Lead [OF lead]
  have d1: "waiters d1 = waiters d" "chans d1 = chans d" "CacheDir d1 = CacheDir d"
    "GetProxy d1 = GetProxy d" "workers d1 (HashString url)"
    by (simp_all add: l(3))
  have r1: "waiters_ready (cache ?r)"
    using ready waiters_ready_cong [of "cache ?r" d] by (simp add: download_keeps d1)
  have w1: "workers (cache ?r) (HashString url)"
    by (simp add: download_keeps d1)
  have dir: "downloadDir (cache ?r) url = downloadDir d url"
    by (rule downloadDir_cong) (simp add: download_keeps d1)
  have wt: "waiting (cache ?r) (HashString url) = waiting d (HashString url)"
    by (simp add: waiting_def download_keeps d1)
  from arrivals_in_flight [OF arr w1 r1]
  have r2: "waiters_ready d2"
    and w2: "waiting d2 (HashString url) = waiting d (HashString url) @ joined as"
    and hj: "list_all hit_or_join as"
    and hits: "map (\<lambda>a. a = Hit) as
           = map (\<lambda>s. os_Stat (fst s) (filepath_Join [downloadDir d url, ''meta.json''])) seen"
    by (simp_all add: dir wt)
  from notify_ready [OF r2, of "HashString url" "err ?r"]
  obtain d3 where n: "unsafeNotifyWaiters d2 (HashString url) (err ?r)
        = Some (d3, map (\<lambda>ch. (ch, err ?r)) (waiting d2 (HashString url)))"
    and len: "length (chans d3) = length (chans d2)"
    and c: "\<forall>c<length (chans d2). chans d3 ! c =
              (if c \<in> set (waiting d2 (HashString url)) then (chans d2 ! c)\<lparr>buf := [err ?r]\<rparr>
               else chans d2 ! c)"
    by blast
  have "\<exists>cs. chan_recv (chans d3) ch = Some (err ?r, cs)" if "ch \<in> set (joined as)" for ch
  proof -
    from that have m: "ch \<in> set (waiting d2 (HashString url))"
      by (simp add: w2)
    with waiters_readyD(2) [OF r2] have "ch < length (chans d2)"
      by (auto simp: registered_def)
    with c m len have "ch < length (chans d3)" "buf (chans d3 ! ch) = [err ?r]"
      by simp_all
    then show ?thesis by (rule recv_notified)
  qed
  then have "list_all (\<lambda>ch. \<exists>cs. chan_recv (chans d3) ch = Some (err ?r, cs)) (joined as)"
    by (simp add: list_all_iff)
  moreover have "sent ?r = [request d url]"
    by (simp add: download_sent request_cong [of d1 d] d1)
  ultimately show ?thesis
    using hj hits n by (auto simp: w2 l(1))
qed

lemma two_arrivals:
  "waiters_ready cache0"
  "admit cache0 Map.empty ''u'' ''f''
     = (Lead (HashString ''u'') ''f'', cache0\<lparr>workers := (workers cache0)(HashString ''u'' := True)\<rparr>)"
  "arrivals (cache (download env_404
                (cache0\<lparr>workers := (workers cache0)(HashString ''u'' := True)\<rparr>) Map.empty ''u'' ''f''))
       ''u'' [(Map.empty, ''a''), (Map.empty, ''b'')]
     = (fst (unsafeAddWaiter (fst (unsafeAddWaiter
              (cache0\<lparr>workers := (workers cache0)(HashString ''u'' := True)\<rparr>) (HashString ''u'')))
              (HashString ''u'')),
        [Join 0, Join 1])"
proof -
  let ?d1 = "cache0\<lparr>workers := (workers cache0)(HashString ''u'' := True)\<rparr>"
  show "waiters_ready cache0"
    by (simp add: cache0_def waiters_ready_New)
  show "admit cache0 Map.empty ''u'' ''f'' = (Lead (HashString ''u'') ''f'', ?d1)"
    by (cases rule: admit_cases [of cache0 Map.empty "''u''" "''f''"])
       (simp_all add: os_Stat_def cache0_def NewDownloadCache_def)
  have c0: "chans ?d1 = []"
    by (simp add: cache0_def NewDownloadCache_def)
  have w1: "workers ?d1 (HashString ''u'')"
    by simp
  have w2: "workers (fst (unsafeAddWaiter ?d1 (HashString ''u''))) (HashString ''u'')"
    by (simp add: unsafeAddWaiter_fresh)
  have a1: "admit ?d1 Map.empty ''u'' ''a''
      = (Join 0, fst (unsafeAddWaiter ?d1 (HashString ''u'')))"
    by (simp add: admit_in_flight [OF w1] os_Stat_def c0)
  have a2: "admit (fst (unsafeAddWaiter ?d1 (HashString ''u''))) Map.empty ''u'' ''b''
      = (Join 1, fst (unsafeAddWaiter (fst (unsafeAddWaiter ?d1 (HashString ''u''))) (HashString ''u'')))"
    by (simp add: admit_in_flight [OF w2] os_Stat_def unsafeAddWaiter_fresh(2) c0)
  show "arrivals (cache (download env_404 ?d1 Map.empty ''u'' ''f'')) ''u''
          [(Map.empty, ''a''), (Map.empty, ''b'')]
     = (fst (unsafeAddWaiter (fst (unsafeAddWaiter ?d1 (HashString ''u''))) (HashString ''u'')),
        [Join 0, Join 1])"
    by (simp add: download_404 a1 a2)
qed

theorem one_fetch_serves_the_callers_that_wait_witness:
  "waiters_ready cache0 \<and>
   admit cache0 Map.empty ''u'' ''f''
     = (Lead (HashString ''u'') ''f'', cache0\<lparr>workers := (workers cache0)(HashString ''u'' := True)\<rparr>) \<and>
   arrivals (cache (download env_404
                (cache0\<lparr>workers := (workers cache0)(HashString ''u'' := True)\<rparr>) Map.empty ''u'' ''f''))
       ''u'' [(Map.empty, ''a''), (Map.empty, ''b'')]
     = (fst (unsafeAddWaiter (fst (unsafeAddWaiter
              (cache0\<lparr>workers := (workers cache0)(HashString ''u'' := True)\<rparr>) (HashString ''u'')))
              (HashString ''u'')),
        [Join 0, Join 1]) \<and>
   sent (download env_404 (cache0\<lparr>workers := (workers cache0)(HashString ''u'' := True)\<rparr>)
          Map.empty ''u'' ''f'') = [request cache0 ''u''] \<and>
   (\<exists>d3. unsafeNotifyWaiters
            (fst (unsafeAddWaiter (fst (unsafeAddWaiter
              (cache0\<lparr>workers := (workers cache0)(HashString ''u'' := True)\<rparr>) (HashString ''u'')))
              (HashString ''u'')))
            (HashString ''u'') (Some ''remote: 404 Not Found'')
          = Some (d3, [(0, Some ''remote: 404 Not Found''), (1, Some ''remote: 404 Not Found'')]) \<and>
        (\<exists>cs. chan_recv (chans d3) 0 = Some (Some ''remote: 404 Not Found'', cs)) \<and>
        (\<exists>cs. chan_recv (chans d3) 1 = Some (Some ''remote: 404 Not Found'', cs)))"
proof -
  have w0: "waiting cache0 (HashString ''u'') = []"
    by (simp add: waiting_def cache0_def NewDownloadCache_def)
  from one_fetch_serves_the_callers_that_wait [OF two_arrivals]
  show ?thesis
    using two_arrivals by (simp add: download_404 w0)
qed


subsection \<open>A key is fetched once\<close>

text \<open>
  X1. A key is fetched at most once by a cache: after a call of \<^verbatim>\<open>DownloadAndWait\<close>
  that fetched, whatever its outcome, a later call for the same URL that finds no
  \<^verbatim>\<open>meta.json\<close> (the fetch failed, or the sweep has removed the entry since) sends no
  request and blocks on a new channel.
\<close>

theorem fetched_key_is_never_fetched_again:
  assumes "fetches (DownloadAndWait e d fs url filename) \<noteq> []"
    and "\<not> os_Stat fs' (filepath_Join [downloadDir d url, ''meta.json''])"
  shows "ret (DownloadAndWait e' (engine (DownloadAndWait e d fs url filename)) fs' url filename')
           = Receiving (length (chans (engine (DownloadAndWait e d fs url filename)))) \<and>
         fetches (DownloadAndWait e' (engine (DownloadAndWait e d fs url filename)) fs' url filename')
           = []"
proof -
  let ?r = "DownloadAndWait e d fs url filename"
  have w: "workers (engine ?r) (HashString url)"
    using assms(1) by (rule leader_marks_worker)
  have "downloadDir (engine ?r) url = downloadDir d url"
    by (rule downloadDir_cong) (rule DownloadAndWait_keeps_CacheDir)
  with assms(2) have "\<not> os_Stat fs' (filepath_Join [downloadDir (engine ?r) url, ''meta.json''])"
    by simp
  then show ?thesis
    using w by (simp add: DownloadAndWait_Join)
qed

theorem fetched_key_is_never_fetched_again_witness:
  "ret (DownloadAndWait env_200 cache0 Map.empty ''u'' []) = Returned None \<and>
   fetches (DownloadAndWait env_200 cache0 Map.empty ''u'' []) \<noteq> [] \<and>
   \<not> os_Stat Map.empty (filepath_Join [downloadDir cache0 ''u'', ''meta.json'']) \<and>
   ret (DownloadAndWait env_200 (engine (DownloadAndWait env_200 cache0 Map.empty ''u'' []))
          Map.empty ''u'' [])
     = Receiving (length (chans (engine (DownloadAndWait env_200 cache0 Map.empty ''u'' [])))) \<and>
   fetches (DownloadAndWait env_200 (engine (DownloadAndWait env_200 cache0 Map.empty ''u'' []))
          Map.empty ''u'' []) = []"
proof -
  have n: "\<not> os_Stat Map.empty (filepath_Join [downloadDir cache0 ''u'', ''meta.json''])"
    by (simp add: os_Stat_def)
  from fetched_key_is_never_fetched_again [OF first_call_200(1) n, of env_200 "[]"]
    first_call_200 n
  show ?thesis by blast
qed


subsection \<open>After a failed commit\<close>

lemma cleanup_removes:
  assumes "faults e (RemoveAll dir) = None" and "below dir p"
  shows "cleanup e fs tmp dir p = None"
  using assms by (simp add: cleanup_def os_RemoveAll_def Let_def)

lemma download_failure_runs_cleanup:
  assumes r: "origin e (request d url) = Inr res" and s: "StatusCode res = 200"
    and f: "err (download e d fs url filename) \<noteq> None"
  shows "\<exists>fs'. files (download e d fs url filename)
           = cleanup e fs' (filepath_Join [CacheDir d, HashString url @ ''.tmp'']) (downloadDir d url)"
proof -
  let ?tmp = "filepath_Join [CacheDir d, HashString url @ ''.tmp'']"
  let ?dir = "downloadDir d url"
  let ?target = "filepath_Join [?dir, ''cached.file'']"
  let ?meta = "filepath_Join [?dir, ''meta.json'']"
  let ?goal = "\<exists>fs'. files (download e d fs url filename) = cleanup e fs' ?tmp ?dir"
  show ?thesis
  proof (cases "faults e (Create ?tmp)")
    case (Some x)
    with r s show ?thesis by (simp add: download_def Let_def) blast
  next
    case c: None
    show ?thesis
    proof (cases "case faults e (Copy ?tmp) of Some x \<Rightarrow> Some x | None \<Rightarrow> BodyError res")
      case (Some x)
      with r s c show ?thesis by (simp add: download_def Let_def) blast
    next
      case p: None
      show ?thesis
      proof (cases "faults e (Close ?tmp)")
        case (Some x)
        with r s c p show ?thesis by (simp add: download_def Let_def) blast
      next
        case cl: None
        show ?thesis
        proof (cases "faults e (MkdirAll ?dir)")
          case (Some x)
          with r s c p cl show ?thesis by (simp add: download_def Let_def) blast
        next
          case mk: None
          show ?thesis
          proof (cases "faults e (Rename ?tmp ?target)")
            case (Some x)
            with r s c p cl mk show ?thesis by (simp add: download_def Let_def) blast
          next
            case rn: None
            show ?thesis
            proof (cases "faults e (WriteFile ?meta)")
              case (Some x)
              with r s c p cl mk rn show ?thesis by (simp add: download_def Let_def) blast
            next
              case wf: None
              show ?thesis
              proof (cases "faults e (WriteData ?meta)")
                case (Some x)
                with r s c p cl mk rn wf show ?thesis by (simp add: download_def Let_def) blast
              next
                case None
                with r s c p cl mk rn wf f show ?thesis by (simp add: download_def Let_def)
              qed
            qed
          qed
        qed
      qed
    qed
  qed
qed

lemma below_entry:
  "below (downloadDir d url) (downloadDir d url)"
  "below (downloadDir d url) (filepath_Join [downloadDir d url, ''cached.file''])"
  "below (downloadDir d url) (filepath_Join [downloadDir d url, ''meta.json''])"
  by (simp_all add: below_def Join_dir)

text \<open>
  X2. A download that got a 200 response and then fails (while staging, at the rename
  or at the metadata) runs the deferred closure; when its \<^verbatim>\<open>RemoveAll\<close> succeeds, nothing
  is left at or below the entry directory: no payload, no metadata, and neither
  existence check reports the key as cached.
\<close>

theorem failed_commit_leaves_no_entry:
  assumes "origin e (request d url) = Inr res" and "StatusCode res = 200"
    and "err (download e d fs url filename) \<noteq> None"
    and "faults e (RemoveAll (downloadDir d url)) = None"
  shows "\<not> os_Stat (files (download e d fs url filename)) (downloadDir d url) \<and>
         \<not> os_Stat (files (download e d fs url filename))
              (filepath_Join [downloadDir d url, ''cached.file'']) \<and>
         \<not> os_Stat (files (download e d fs url filename))
              (filepath_Join [downloadDir d url, ''meta.json'']) \<and>
         \<not> IsCached d (files (download e d fs url filename)) url \<and>
         fst (admit d (files (download e d fs url filename)) url filename') \<noteq> Hit"
proof -
  from download_failure_runs_cleanup [OF assms(1,2,3)] obtain fs' where
    "files (download e d fs url filename)
       = cleanup e fs' (filepath_Join [CacheDir d, HashString url @ ''.tmp'']) (downloadDir d url)"
    by blast
  then have "files (download e d fs url filename) p = None" if "below (downloadDir d url) p" for p
    using cleanup_removes [OF assms(4) that] by simp
  then show ?thesis
    by (simp add: os_Stat_def IsCached_def admit_Hit_iff below_entry)
qed

theorem failed_commit_leaves_no_entry_witness:
  "origin env_rename_fails (request cache0 ''u'')
     = Inr \<lparr>StatusCode = 200, Status = ''200 OK'', ContentLength = Some 5, Body = ''hello'',
            BodyError = None\<rparr> \<and>
   err (download env_rename_fails cache0 Map.empty ''u'' ''f'') = Some ''no space left on device'' \<and>
   faults env_rename_fails (RemoveAll (downloadDir cache0 ''u'')) = None \<and>
   \<not> os_Stat (files (download env_rename_fails cache0 Map.empty ''u'' ''f'')) (downloadDir cache0 ''u'') \<and>
   \<not> IsCached cache0 (files (download env_rename_fails cache0 Map.empty ''u'' ''f'')) ''u'' \<and>
   fst (admit cache0 (files (download env_rename_fails cache0 Map.empty ''u'' ''f'')) ''u'' ''f'') \<noteq> Hit"
proof -
  have a: "origin env_rename_fails (request cache0 ''u'')
     = Inr \<lparr>StatusCode = 200, Status = ''200 OK'', ContentLength = Some 5, Body = ''hello'',
            BodyError = None\<rparr>"
    by (simp add: env_rename_fails_def origin_200_def)
  have b: "StatusCode \<lparr>StatusCode = 200, Status = ''200 OK'', ContentLength = Some 5, Body = ''hello'',
            BodyError = None\<rparr> = 200"
    by simp
  have c: "err (download env_rename_fails cache0 Map.empty ''u'' ''f'') = Some ''no space left on device''"
    by (simp add: download_def env_rename_fails_def origin_200_def Let_def)
  then have c': "err (download env_rename_fails cache0 Map.empty ''u'' ''f'') \<noteq> None"
    by simp
  have d: "faults env_rename_fails (RemoveAll (downloadDir cache0 ''u'')) = None"
    by (simp add: env_rename_fails_def)
  from failed_commit_leaves_no_entry [OF a b c' d, of "''f''"] a c d
  show ?thesis by blast
qed

end
